theory Spec2Isabelle
  imports Complex_Main "HOL-Library.Word" "HOL-Library.Sublist"
begin

unbundle bit_operations_syntax

section \<open>Data model of TmImpactSlip.c\<close>

text \<open>
  Bytes are \<open>unsigned char\<close>. The C type \<open>unsigned\<close> is modelled by \<open>nat\<close>; where a
  32-bit operation of the source can wrap and a result depends on it, the reduction
  modulo \<open>2 ^ 32\<close> is written out. Result codes are the source's \<open>int\<close> values.
\<close>

type_synonym byte = "8 word"

abbreviation EPTMD_SUCCESS :: int where "EPTMD_SUCCESS \<equiv> 0"
abbreviation EPTMD_FAILED :: int where "EPTMD_FAILED \<equiv> - 1"
abbreviation EPTMD_CANCEL :: int where "EPTMD_CANCEL \<equiv> - 2"

abbreviation ESC :: byte where "ESC \<equiv> 0x1b"
abbreviation GS :: byte where "GS \<equiv> 0x1d"
abbreviation FF :: byte where "FF \<equiv> 0x0c"

datatype EPTME_BLANK_SKIP_TYPE =
  TmPaperReductionOff | TmPaperReductionTop | TmPaperReductionBottom | TmPaperReductionBoth

datatype EPTME_BUZZER = TmBuzzerNotUsed | TmBuzzerInternal | TmBuzzerExternal

datatype EPTME_DRAWER = TmDrawerNotUsed | TmDrawer1 | TmDrawer2

record EPTMS_CONFIG_T =
  h_motionUnit :: nat
  v_motionUnit :: nat
  paperReduction :: EPTME_BLANK_SKIP_TYPE
  buzzerControl :: EPTME_BUZZER
  drawerControl :: EPTME_DRAWER
  maxBandLines :: nat

text \<open>
  The fields of \<open>cups_page_header_t\<close> that the filter reads; \<open>HWResolution1\<close> is
  \<open>HWResolution[1]\<close>, the vertical resolution.
\<close>

record cups_page_header_t =
  cupsWidth :: nat
  cupsHeight :: nat
  cupsBytesPerLine :: nat
  cupsBitsPerPixel :: nat
  HWResolution1 :: nat

subsection \<open>The environment\<close>

text \<open>
  One \<open>write(2)\<close> on standard output either accepts some bytes (\<open>Wr n\<close>, where
  \<open>Wr 0\<close> is a return value of 0), fails with \<open>EINTR\<close>, or fails with another
  error. The sink is a finite script of such outcomes, one for each successive call;
  with each outcome comes a flag telling whether \<open>SIGTERM\<close> was handled during the
  call. When the script is used up every further \<open>write\<close> accepts all the bytes it is
  given.
\<close>

datatype wr_outcome = Wr nat | WrEINTR | WrError

text \<open>
  A user file below \<open>/var/lib/tmx-cups\<close>: absent (\<open>ENOENT\<close>), not openable for
  another reason, or open with a content, a flag telling whether \<open>read\<close> fails once
  the content is delivered, and a flag telling whether \<open>close\<close> fails.
\<close>

datatype ufile = NoEnt | OpenFails | Opened "byte list" bool bool

text \<open>
  A page of the raster stream is its header and the results of the successive
  \<open>cupsRasterReadPixels\<close> calls: the bytes delivered (fewer than a scanline for a
  short read) and whether \<open>SIGTERM\<close> was handled before the call returned.
\<close>

type_synonym raster_page = "cups_page_header_t \<times> (bool \<times> byte list) list"

text \<open>
  The state threaded through the filter: the bytes standard output has accepted, the
  script of the sink, the global \<open>g_TmCanceled\<close>, the user files by name, and
  \<open>uninit_i\<close>, the value that the local variable \<open>i\<close> of \<open>AvoidDisturbingData\<close>
  holds on entry (the source declares it without an initialiser). The raster stream is
  passed to \<open>DoJob\<close> as the list of its pages.
\<close>

record world =
  out :: "byte list"
  script :: "(bool \<times> wr_outcome) list"
  g_TmCanceled :: bool
  userfile :: "string \<Rightarrow> ufile"
  uninit_i :: nat

section \<open>Writing to the sink\<close>

text \<open>
  \<open>WriteData\<close>: the loop \<open>for (count = 0; size > count; count += result)\<close>. A
  \<open>continue\<close> in a \<open>for\<close> loop runs the increment, so after \<open>EINTR\<close> the source adds
  \<open>result = -1\<close> to the unsigned \<open>count\<close>.
\<close>

function WriteData_loop :: "byte list \<Rightarrow> nat \<Rightarrow> world \<Rightarrow> int \<times> world" where
  "WriteData_loop p_buffer count w =
     (if \<not> length p_buffer > count
      then (if count = length p_buffer then EPTMD_SUCCESS else EPTMD_FAILED, w)
      else (case script w of
          [] \<Rightarrow> (EPTMD_SUCCESS, w\<lparr>out := out w @ drop count p_buffer\<rparr>)
        | ev # rest \<Rightarrow>
            (let w' = w\<lparr>script := rest, g_TmCanceled := (g_TmCanceled w \<or> fst ev)\<rparr> in
             (case snd ev of
                Wr n \<Rightarrow>
                  (let result = min n (length p_buffer - count) in
                   if result = 0 then (EPTMD_FAILED, w')
                   else WriteData_loop p_buffer (count + result)
                          (w'\<lparr>out := out w' @ take result (drop count p_buffer)\<rparr>))
              | WrEINTR \<Rightarrow> WriteData_loop p_buffer ((count + (2 ^ 32 - 1)) mod 2 ^ 32) w'
              | WrError \<Rightarrow> (- 1, w')))))"
  by pat_completeness auto
termination
  by (relation "measure (\<lambda>(p, c, w). length (script w))") auto

definition WriteData :: "byte list \<Rightarrow> world \<Rightarrow> int \<times> world" where
  "WriteData p_buffer w = WriteData_loop p_buffer 0 w"

section \<open>Feed calculator\<close>

text \<open>
  \<open>FeedPaper\<close> divides the 32-bit product \<open>num_line * v_motionUnit\<close> by the vertical
  resolution in \<open>double\<close> and takes the integral part with \<open>modf\<close>; the fractional
  part is computed and not used. Both operands are below \<open>2 ^ 32\<close>, so the rounded
  \<open>double\<close> quotient has the same integral part as the exact quotient, and the model
  divides in \<open>real\<close>. A resolution of 0 makes the conversion to \<open>unsigned\<close> undefined
  in C; results about \<open>FeedPaper\<close> assume a positive resolution.
\<close>

definition feed_correction :: "EPTMS_CONFIG_T \<Rightarrow> cups_page_header_t \<Rightarrow> nat \<Rightarrow> real" where
  "feed_correction p_config p_header num_line =
     real ((num_line * v_motionUnit p_config) mod 2 ^ 32) / real (HWResolution1 p_header)"

definition feed_fractional :: "EPTMS_CONFIG_T \<Rightarrow> cups_page_header_t \<Rightarrow> nat \<Rightarrow> real" where
  "feed_fractional p_config p_header num_line = frac (feed_correction p_config p_header num_line)"

definition feed_point :: "EPTMS_CONFIG_T \<Rightarrow> cups_page_header_t \<Rightarrow> nat \<Rightarrow> nat" where
  "feed_point p_config p_header num_line = nat \<lfloor>feed_correction p_config p_header num_line\<rfloor>"

text \<open>The loop \<open>for ( ; 0xff < point; point -= 0xff )\<close>, each round one \<open>ESC J 0xFF\<close>.\<close>

function FeedPaper_loop :: "nat \<Rightarrow> world \<Rightarrow> int \<times> nat \<times> world" where
  "FeedPaper_loop point w =
     (if 0xff < point
      then (case WriteData [ESC, 0x4A, 0xFF] w of
              (result, w') \<Rightarrow>
                if EPTMD_SUCCESS \<noteq> result then (result, point, w')
                else FeedPaper_loop (point - 0xff) w')
      else (EPTMD_SUCCESS, point, w))"
  by pat_completeness auto
termination
  by (relation "measure (\<lambda>(point, w). point)") auto

definition FeedPaper :: "EPTMS_CONFIG_T \<Rightarrow> cups_page_header_t \<Rightarrow> nat \<Rightarrow> world \<Rightarrow> int \<times> world" where
  "FeedPaper p_config p_header num_line w =
     (let point = feed_point p_config p_header num_line in
      if 0 = point then (EPTMD_SUCCESS, w)
      else (case FeedPaper_loop point w of
              (result, point', w') \<Rightarrow>
                if EPTMD_SUCCESS \<noteq> result then (result, w')
                else if 0 < point'
                  then (case WriteData [ESC, 0x4A, of_nat point'] w' of
                          (result', w'') \<Rightarrow>
                            if EPTMD_SUCCESS \<noteq> result' then (result', w'')
                            else (EPTMD_SUCCESS, w''))
                  else (EPTMD_SUCCESS, w')))"

section \<open>Band transposition and sanitizing\<close>

text \<open>
  A pointer into the page buffer is the buffer and an offset. \<open>band_byte\<close> is
  \<open>p_dataK[x]\<close>, the byte \<open>x\<close> of the scanline \<open>k\<close> of the band that starts at \<open>off\<close>.
  The operands of the shifts are promoted to \<open>int\<close> in C; the model shifts in 32 bits
  and stores the low byte.
\<close>

definition band_byte :: "byte list \<Rightarrow> nat \<Rightarrow> nat \<Rightarrow> nat \<Rightarrow> nat \<Rightarrow> 32 word" where
  "band_byte p_pageBuffer off bpl k x = ucast (p_pageBuffer ! (off + k * bpl + x))"

text \<open>
  One round of the inner loop of \<open>WriteBand\<close>: the eight guarded statements that build
  \<open>p_send_data[index]\<close>, which \<open>memset\<close> has set to 0.
\<close>

definition send_byte :: "byte list \<Rightarrow> nat \<Rightarrow> nat \<Rightarrow> nat \<Rightarrow> nat \<Rightarrow> nat \<Rightarrow> byte" where
  "send_byte p off bpl lines x bitno =
     (let b0 = (0 :: byte);
          b1 = (if 1 \<le> lines
                then ucast (push_bit 7 (drop_bit (7 - bitno) (band_byte p off bpl 0 x)) AND 0x80) else b0);
          b2 = (if 2 \<le> lines
                then b1 OR ucast (push_bit 6 (drop_bit (7 - bitno) (band_byte p off bpl 1 x)) AND 0x40) else b1);
          b3 = (if 3 \<le> lines
                then b2 OR ucast (push_bit 5 (drop_bit (7 - bitno) (band_byte p off bpl 2 x)) AND 0x20) else b2);
          b4 = (if 4 \<le> lines
                then b3 OR ucast (push_bit 4 (drop_bit (7 - bitno) (band_byte p off bpl 3 x)) AND 0x10) else b3);
          b5 = (if 5 \<le> lines
                then b4 OR ucast (push_bit 3 (drop_bit (7 - bitno) (band_byte p off bpl 4 x)) AND 0x08) else b4);
          b6 = (if 6 \<le> lines
                then b5 OR ucast (push_bit 2 (drop_bit (7 - bitno) (band_byte p off bpl 5 x)) AND 0x04) else b5);
          b7 = (if 7 \<le> lines
                then b6 OR ucast (push_bit 1 (drop_bit (7 - bitno) (band_byte p off bpl 6 x)) AND 0x02) else b6);
          b8 = (if 8 \<le> lines
                then b7 OR ucast (push_bit 0 (drop_bit (7 - bitno) (band_byte p off bpl 7 x)) AND 0x01) else b7)
      in b8)"

text \<open>
  The two nested loops (\<open>x\<close> over the bytes of a scanline, \<open>bitno\<close>, the source's \<open>bit\<close>, over 0..7, \<open>index\<close>
  counting up): the send buffer of \<open>cupsBytesPerLine * 8\<close> bytes.
\<close>

definition make_send_data :: "cups_page_header_t \<Rightarrow> byte list \<Rightarrow> nat \<Rightarrow> nat \<Rightarrow> byte list" where
  "make_send_data p_header p off lines =
     concat (map (\<lambda>x. map (\<lambda>bitno. send_byte p off (cupsBytesPerLine p_header) lines x bitno) [0..<8])
                 [0..<cupsBytesPerLine p_header])"

text \<open>
  \<open>AvoidDisturbingData\<close>. The source's loop is \<open>for ( ; (i + 1) < data_size; i++ )\<close>
  over a local \<open>unsigned long i\<close> that has no initialiser, so the loop starts at
  whatever value \<open>i\<close> holds; that value is the parameter \<open>i\<close> of the first call.
  Both \<open>i\<close> and \<open>data_size\<close> are \<open>unsigned long\<close>, 64 bits wide, so \<open>i + 1\<close> and
  \<open>i++\<close> wrap at \<open>2 ^ 64\<close>: entered with \<open>i = 2 ^ 64 - 1\<close> the loop goes on at index 0.
  In that one round \<open>p_data[i]\<close> lies outside of the buffer; the list of the model reads
  an unspecified byte there and its update leaves the list as it is.
\<close>

function AvoidDisturbingData_loop :: "nat \<Rightarrow> nat \<Rightarrow> byte list \<Rightarrow> byte list" where
  "AvoidDisturbingData_loop i data_size p_data =
     (if (i + 1) mod 2 ^ 64 < data_size mod 2 ^ 64
      then AvoidDisturbingData_loop ((i + 1) mod 2 ^ 64) data_size
             (if 0x10 = p_data ! i
              then (if (0x04 = p_data ! ((i + 1) mod 2 ^ 64)) \<or> (0x05 = p_data ! ((i + 1) mod 2 ^ 64))
                       \<or> (0x14 = p_data ! ((i + 1) mod 2 ^ 64))
                    then p_data[i := 0x30] else p_data)
              else if 0x1B = p_data ! i
              then (if 0x3D = p_data ! ((i + 1) mod 2 ^ 64) then p_data[i := 0x3B] else p_data)
              else p_data)
      else p_data)"
  by pat_completeness auto
termination
proof (relation "measure (\<lambda>(i, data_size, p). data_size mod 2 ^ 64 - (i + 1) mod 2 ^ 64)", goal_cases)
  case 1
  show ?case by simp
next
  case (2 i data_size p_data)
  have "data_size mod 2 ^ 64 < (2 :: nat) ^ 64" by simp
  with 2 have "(i + 1) mod 2 ^ 64 + 1 < (2 :: nat) ^ 64" by linarith
  then have "((i + 1) mod 2 ^ 64 + 1) mod 2 ^ 64 = (i + 1) mod 2 ^ 64 + 1" by (rule mod_less)
  with 2 show ?case by simp
qed

text \<open>
  The buffer handed over starts at \<open>cupsBytesPerLine * start_line_no\<close>; \<open>WriteBand\<close>
  calls with \<open>start_line_no = 0\<close> and \<open>last_line_no = 8\<close>. The last argument is the
  value that \<open>i\<close> holds on entry, an \<open>unsigned long\<close>.
\<close>

definition AvoidDisturbingData ::
  "cups_page_header_t \<Rightarrow> byte list \<Rightarrow> nat \<Rightarrow> nat \<Rightarrow> nat \<Rightarrow> byte list" where
  "AvoidDisturbingData p_header p_pageBuffer start_line_no last_line_no i0 =
     (let off = cupsBytesPerLine p_header * start_line_no;
          data_size = (last_line_no - start_line_no) * cupsBytesPerLine p_header
      in take off p_pageBuffer
         @ AvoidDisturbingData_loop (i0 mod 2 ^ 64) data_size (drop off p_pageBuffer))"

section \<open>Margin detection\<close>

text \<open>The inner loop of both scans: does the scanline at \<open>p_data\<close> hold a non-zero byte.\<close>

definition line_is_black :: "byte list \<Rightarrow> int \<Rightarrow> nat \<Rightarrow> bool" where
  "line_is_black p_pageBuffer p_data BytesPerLine =
     list_ex (\<lambda>x. 0x00 \<noteq> p_pageBuffer ! nat (p_data + int x)) [0..<BytesPerLine]"

function FindBlackRasterLineTop_loop ::
  "cups_page_header_t \<Rightarrow> byte list \<Rightarrow> nat \<Rightarrow> int \<Rightarrow> nat" where
  "FindBlackRasterLineTop_loop p_header p_pageBuffer y p_data =
     (if y < cupsHeight p_header
      then (if line_is_black p_pageBuffer p_data (cupsBytesPerLine p_header) then y
            else FindBlackRasterLineTop_loop p_header p_pageBuffer (y + 1)
                   (p_data + int (cupsBytesPerLine p_header)))
      else cupsHeight p_header)"
  by pat_completeness auto
termination
  by (relation "measure (\<lambda>(h, b, y, p). cupsHeight h - y)") auto

definition FindBlackRasterLineTop :: "cups_page_header_t \<Rightarrow> byte list \<Rightarrow> nat" where
  "FindBlackRasterLineTop p_header p_pageBuffer =
     FindBlackRasterLineTop_loop p_header p_pageBuffer 0 0"

function FindBlackRasterLineEnd_loop ::
  "cups_page_header_t \<Rightarrow> byte list \<Rightarrow> nat \<Rightarrow> int \<Rightarrow> nat" where
  "FindBlackRasterLineEnd_loop p_header p_pageBuffer y p_data =
     (if y < cupsHeight p_header
      then (if line_is_black p_pageBuffer p_data (cupsBytesPerLine p_header)
            then cupsHeight p_header - 1 - y
            else FindBlackRasterLineEnd_loop p_header p_pageBuffer (y + 1)
                   (p_data - int (cupsBytesPerLine p_header)))
      else 0)"
  by pat_completeness auto
termination
  by (relation "measure (\<lambda>(h, b, y, p). cupsHeight h - y)") auto

text \<open>
  The start pointer is \<open>p_pageBuffer + BytesPerLine * (cupsHeight - 1)\<close>, a 32-bit
  unsigned product; for a height of 0 the loop body never runs.
\<close>

definition FindBlackRasterLineEnd :: "cups_page_header_t \<Rightarrow> byte list \<Rightarrow> nat" where
  "FindBlackRasterLineEnd p_header p_pageBuffer =
     FindBlackRasterLineEnd_loop p_header p_pageBuffer 0
       (int ((cupsBytesPerLine p_header * ((cupsHeight p_header + (2 ^ 32 - 1)) mod 2 ^ 32)) mod 2 ^ 32))"

section \<open>Bands and pages\<close>

text \<open>
  \<open>WriteBand\<close>: the \<open>ESC * 1 nL nH\<close> header, the transposed and sanitized payload, and
  a feed for 8 scanlines. \<open>malloc\<close> is taken to succeed, here and in \<open>DoJob\<close> and
  \<open>ReadRaster\<close>.
\<close>

definition WriteBand ::
  "EPTMS_CONFIG_T \<Rightarrow> cups_page_header_t \<Rightarrow> byte list \<Rightarrow> nat \<Rightarrow> nat \<Rightarrow> world \<Rightarrow> int \<times> world" where
  "WriteBand p_config p_header p_pageBuffer off lines w =
     (case WriteData [ESC, 0x2A, 1, of_nat (cupsWidth p_header mod 256),
                      of_nat ((cupsWidth p_header div 256) mod 256)] w of
        (result, w1) \<Rightarrow>
          if EPTMD_SUCCESS \<noteq> result then (result, w1)
          else (case WriteData
                       (AvoidDisturbingData p_header
                          (make_send_data p_header p_pageBuffer off lines) 0 8 (uninit_i w1)) w1 of
                  (result, w2) \<Rightarrow>
                    if EPTMD_SUCCESS \<noteq> result then (result, w2)
                    else (case FeedPaper p_config p_header 8 w2 of
                            (result, w3) \<Rightarrow>
                              if EPTMD_SUCCESS \<noteq> result then (result, w3)
                              else (EPTMD_SUCCESS, w3))))"

text \<open>
  The band loop of \<open>WriteRaster\<close>,
  \<open>for ( ; (line_no + maxBandLines) < last_line_no; line_no += maxBandLines )\<close>. The
  first component of the result is the value of an early \<open>return\<close>, if there was one.
  \<open>Init\<close> sets \<open>maxBandLines\<close> to 8, the only value the filter runs with; with 0 the
  source's loop would not advance, and the model leaves the loop.
\<close>

function WriteRaster_loop ::
  "EPTMS_CONFIG_T \<Rightarrow> cups_page_header_t \<Rightarrow> byte list \<Rightarrow> nat \<Rightarrow> nat \<Rightarrow> world
     \<Rightarrow> int option \<times> nat \<times> world" where
  "WriteRaster_loop p_config p_header p_pageBuffer last_line_no line_no w =
     (if (line_no + maxBandLines p_config) < last_line_no \<and> 0 < maxBandLines p_config
      then (case WriteBand p_config p_header p_pageBuffer
                   (cupsBytesPerLine p_header * line_no) (maxBandLines p_config) w of
              (result, w') \<Rightarrow>
                if EPTMD_SUCCESS \<noteq> result then (Some 3403, line_no, w')
                else if g_TmCanceled w' then (Some EPTMD_CANCEL, line_no, w')
                else WriteRaster_loop p_config p_header p_pageBuffer last_line_no
                       (line_no + maxBandLines p_config) w')
      else (None, line_no, w))"
  by pat_completeness auto
termination
  by (relation "measure (\<lambda>(c, h, b, last_line_no, line_no, w). last_line_no - line_no)") auto

definition WriteRaster ::
  "EPTMS_CONFIG_T \<Rightarrow> cups_page_header_t \<Rightarrow> byte list \<Rightarrow> world \<Rightarrow> int \<times> world" where
  "WriteRaster p_config p_header p_pageBuffer w =
     (let start_line_no = FindBlackRasterLineTop p_header p_pageBuffer in
      if cupsHeight p_header = start_line_no
      then (if TmPaperReductionOff = paperReduction p_config
            then (case FeedPaper p_config p_header (cupsHeight p_header) w of
                    (result, w') \<Rightarrow>
                      if EPTMD_SUCCESS \<noteq> result then (3401, w') else (EPTMD_SUCCESS, w'))
            else (EPTMD_SUCCESS, w))
      else
       (let last_line_no = FindBlackRasterLineEnd p_header p_pageBuffer + 1 in
        (case (if \<not> ((TmPaperReductionTop = paperReduction p_config)
                      \<or> (TmPaperReductionBoth = paperReduction p_config))
               then FeedPaper p_config p_header start_line_no w
               else (EPTMD_SUCCESS, w)) of
           (result, w1) \<Rightarrow>
             if EPTMD_SUCCESS \<noteq> result then (3402, w1)
             else (case WriteRaster_loop p_config p_header p_pageBuffer last_line_no
                          start_line_no w1 of
                     (Some r, line_no, w2) \<Rightarrow> (r, w2)
                   | (None, line_no, w2) \<Rightarrow>
                       (case (if line_no < last_line_no
                              then WriteBand p_config p_header p_pageBuffer
                                     (cupsBytesPerLine p_header * line_no)
                                     (last_line_no - line_no) w2
                              else (EPTMD_SUCCESS, w2)) of
                          (result, w3) \<Rightarrow>
                            if EPTMD_SUCCESS \<noteq> result then (3404, w3)
                            else if \<not> ((TmPaperReductionBottom = paperReduction p_config)
                                         \<or> (TmPaperReductionBoth = paperReduction p_config))
                            then (case FeedPaper p_config p_header
                                         (cupsHeight p_header - last_line_no) w3 of
                                    (result, w4) \<Rightarrow>
                                      if EPTMD_SUCCESS \<noteq> result then (3405, w4)
                                      else (EPTMD_SUCCESS, w4))
                            else (EPTMD_SUCCESS, w3))))))"

section \<open>User files\<close>

text \<open>
  \<open>ReadUserFile\<close> reads until the buffer is full, the file ends, or \<open>read\<close> fails;
  each \<open>read\<close> of the model delivers all it is asked for while the file has it. The
  result is the return value and what is left of the file.
\<close>

definition ReadUserFile :: "byte list \<Rightarrow> bool \<Rightarrow> nat \<Rightarrow> int \<times> byte list" where
  "ReadUserFile content rd_err buffer_size =
     (if buffer_size \<le> length content then (int buffer_size, drop buffer_size content)
      else if rd_err then (EPTMD_FAILED, [])
      else (int (length content), []))"

function WriteUserFile_loop :: "byte list \<Rightarrow> bool \<Rightarrow> world \<Rightarrow> int option \<times> world" where
  "WriteUserFile_loop content rd_err w =
     (case ReadUserFile content rd_err 1024 of
        (sz, rest) \<Rightarrow>
          if 0 > sz then (Some EPTMD_FAILED, w)
          else if 0 = sz then (None, w)
          else (case WriteData (take (nat sz) content) w of
                  (result, w') \<Rightarrow>
                    if EPTMD_SUCCESS \<noteq> result then (Some EPTMD_FAILED, w')
                    else WriteUserFile_loop rest rd_err w'))"
  by pat_completeness auto
termination
  by (relation "measure (\<lambda>(content, rd_err, w). length content)")
     (auto simp: ReadUserFile_def split: if_splits)

definition WriteUserFile :: "string \<Rightarrow> world \<Rightarrow> int \<times> world" where
  "WriteUserFile p_file_name w =
     (case userfile w p_file_name of
        NoEnt \<Rightarrow> (EPTMD_SUCCESS, w)
      | OpenFails \<Rightarrow> (EPTMD_FAILED, w)
      | Opened content rd_err close_err \<Rightarrow>
          (case WriteUserFile_loop content rd_err w of
             (Some r, w') \<Rightarrow> (r, w')
           | (None, w') \<Rightarrow> (if close_err then EPTMD_FAILED else EPTMD_SUCCESS, w')))"

section \<open>Page and job sequencing\<close>

definition StartPage :: "EPTMS_CONFIG_T \<Rightarrow> world \<Rightarrow> int \<times> world" where
  "StartPage p_config w =
     (case WriteData [GS, 0x28, 0x47, 2, 0, 84, 1] w of
        (result, w1) \<Rightarrow>
          if EPTMD_SUCCESS \<noteq> result then (3101, w1)
          else (case WriteUserFile ''StartPage.prn'' w1 of
                  (result, w2) \<Rightarrow>
                    if EPTMD_SUCCESS \<noteq> result then (3102, w2) else (EPTMD_SUCCESS, w2)))"

definition EndPage :: "EPTMS_CONFIG_T \<Rightarrow> cups_page_header_t \<Rightarrow> world \<Rightarrow> int \<times> world" where
  "EndPage p_config p_header w =
     (if g_TmCanceled w then (EPTMD_CANCEL, w)
      else (case WriteUserFile ''EndPage.prn'' w of
              (result, w1) \<Rightarrow>
                if EPTMD_SUCCESS \<noteq> result then (3201, w1)
                else (case WriteData [ESC, 0x46, 0, FF] w1 of
                        (result, w2) \<Rightarrow>
                          if EPTMD_SUCCESS \<noteq> result then (3202, w2) else (EPTMD_SUCCESS, w2))))"

text \<open>\<open>TransferRaster\<close>: \<open>memcpy\<close> of one scanline to row \<open>line_no\<close> of the page buffer.\<close>

definition TransferRaster ::
  "byte list \<Rightarrow> byte list \<Rightarrow> cups_page_header_t \<Rightarrow> nat \<Rightarrow> byte list" where
  "TransferRaster p_pageBuffer p_data p_header line_no =
     (let dest = cupsBytesPerLine p_header * line_no in
      take dest p_pageBuffer @ take (cupsBytesPerLine p_header) p_data
        @ drop (dest + cupsBytesPerLine p_header) p_pageBuffer)"

text \<open>
  \<open>ReadRaster\<close>: one \<open>cupsRasterReadPixels\<close> for each scanline, the flag checked before
  each. A stream that has no more data delivers 0 bytes.
\<close>

function ReadRaster_loop ::
  "cups_page_header_t \<Rightarrow> nat \<Rightarrow> (bool \<times> byte list) list \<Rightarrow> byte list \<Rightarrow> world
     \<Rightarrow> int \<times> byte list \<times> world" where
  "ReadRaster_loop p_header i p_raster p_pageBuffer w =
     (if i < cupsHeight p_header
      then (if g_TmCanceled w then (EPTMD_CANCEL, p_pageBuffer, w)
            else (let data_size = cupsBytesPerLine p_header;
                      rd = (case p_raster of [] \<Rightarrow> (False, []) | r # _ \<Rightarrow> r);
                      w' = w\<lparr>g_TmCanceled := (g_TmCanceled w \<or> fst rd)\<rparr>;
                      p_data = take data_size (snd rd)
                  in if data_size > length p_data then (3302, p_pageBuffer, w')
                     else ReadRaster_loop p_header (i + 1) (tl p_raster)
                            (TransferRaster p_pageBuffer p_data p_header i) w'))
      else (EPTMD_SUCCESS, p_pageBuffer, w))"
  by pat_completeness auto
termination
  by (relation "measure (\<lambda>(h, i, r, b, w). cupsHeight h - i)") auto

definition ReadRaster ::
  "cups_page_header_t \<Rightarrow> (bool \<times> byte list) list \<Rightarrow> byte list \<Rightarrow> world
     \<Rightarrow> int \<times> byte list \<times> world" where
  "ReadRaster p_header p_raster p_pageBuffer w = ReadRaster_loop p_header 0 p_raster p_pageBuffer w"

definition DoPage ::
  "EPTMS_CONFIG_T \<Rightarrow> cups_page_header_t \<Rightarrow> (bool \<times> byte list) list \<Rightarrow> byte list \<Rightarrow> world
     \<Rightarrow> int \<times> byte list \<times> world" where
  "DoPage p_config p_header p_raster p_pageBuffer w =
     (case StartPage p_config w of
        (result, w1) \<Rightarrow>
          (case (if EPTMD_SUCCESS = result then ReadRaster p_header p_raster p_pageBuffer w1
                 else (result, p_pageBuffer, w1)) of
             (result, buf, w2) \<Rightarrow>
               (case (if EPTMD_SUCCESS = result then WriteRaster p_config p_header buf w2
                      else (result, w2)) of
                  (result, w3) \<Rightarrow>
                    (case (if EPTMD_SUCCESS = result then EndPage p_config p_header w3
                           else (result, w3)) of
                       (result, w4) \<Rightarrow> (result, buf, w4)))))"

definition OpenDrawer :: "EPTMS_CONFIG_T \<Rightarrow> world \<Rightarrow> int \<times> world" where
  "OpenDrawer p_config w =
     (if TmDrawerNotUsed = drawerControl p_config then (EPTMD_SUCCESS, w)
      else WriteData [ESC, 0x70, (case drawerControl p_config of TmDrawer2 \<Rightarrow> 1 | _ \<Rightarrow> 0), 50, 200] w)"

definition SoundBuzzer :: "EPTMS_CONFIG_T \<Rightarrow> world \<Rightarrow> int \<times> world" where
  "SoundBuzzer p_config w =
     (case buzzerControl p_config of
        TmBuzzerNotUsed \<Rightarrow> (EPTMD_SUCCESS, w)
      | TmBuzzerInternal \<Rightarrow>
          (case WriteData [ESC, 0x70, 1, 50, 200] w of
             (result, w') \<Rightarrow> if EPTMD_SUCCESS \<noteq> result then (result, w') else (EPTMD_SUCCESS, w'))
      | TmBuzzerExternal \<Rightarrow>
          (case WriteData [ESC, 0x28, 0x41, 5, 0, 97, 100, 1, 50, 200] w of
             (result, w') \<Rightarrow> if EPTMD_SUCCESS \<noteq> result then (result, w') else (EPTMD_SUCCESS, w')))"

text \<open>The five configuration commands of \<open>StartJob\<close>, each with its own failure code.\<close>

fun StartJob_commands :: "(int \<times> byte list) list \<Rightarrow> world \<Rightarrow> int \<times> world" where
  "StartJob_commands [] w = (EPTMD_SUCCESS, w)"
| "StartJob_commands ((code, cmd) # cmds) w =
     (case WriteData cmd w of
        (result, w') \<Rightarrow>
          if EPTMD_SUCCESS \<noteq> result then (code, w') else StartJob_commands cmds w')"

definition StartJob :: "EPTMS_CONFIG_T \<Rightarrow> world \<Rightarrow> int \<times> world" where
  "StartJob p_config w =
     (if g_TmCanceled w then (EPTMD_CANCEL, w)
      else (case StartJob_commands
                   [(2101, [ESC, 0x3D, 0x01, ESC, 0x40]),
                    (2102, [ESC, 0x63, 0x30, 0x04]),
                    (2103, [ESC, 0x63, 0x31, 0x04]),
                    (2104, [ESC, 0x63, 0x33, 0x00]),
                    (2105, [GS, 0x28, 0x47, 2, 0, 48, 4])] w of
              (result, w1) \<Rightarrow>
                if EPTMD_SUCCESS \<noteq> result then (result, w1)
                else (case OpenDrawer p_config w1 of
                        (result, w2) \<Rightarrow>
                          if EPTMD_SUCCESS \<noteq> result then (2106, w2)
                          else (case SoundBuzzer p_config w2 of
                                  (result, w3) \<Rightarrow>
                                    if EPTMD_SUCCESS \<noteq> result then (2107, w3)
                                    else (case WriteUserFile ''StartJob.prn'' w3 of
                                            (result, w4) \<Rightarrow>
                                              if EPTMD_SUCCESS \<noteq> result then (2108, w4)
                                              else (EPTMD_SUCCESS, w4))))))"

definition EndJob :: "EPTMS_CONFIG_T \<Rightarrow> world \<Rightarrow> int \<times> world" where
  "EndJob p_config w =
     (if g_TmCanceled w then (EPTMD_CANCEL, w)
      else (case WriteUserFile ''EndJob.prn'' w of
              (result, w') \<Rightarrow>
                if EPTMD_SUCCESS \<noteq> result then (2201, w') else (EPTMD_SUCCESS, w')))"

text \<open>
  The page loop of \<open>DoJob\<close>, entered with \<open>result = EPTMD_SUCCESS\<close>. The page buffer is
  allocated (and zeroed) for the first page and kept for the following ones; its size
  is a 32-bit unsigned product.
\<close>

fun DoJob_loop ::
  "EPTMS_CONFIG_T \<Rightarrow> raster_page list \<Rightarrow> byte list option \<Rightarrow> world \<Rightarrow> int \<times> world" where
  "DoJob_loop p_config [] p_pageBuffer w = (EPTMD_SUCCESS, w)"
| "DoJob_loop p_config ((pageHeader, p_raster) # pages) p_pageBuffer w =
     (if 1 \<noteq> cupsBitsPerPixel pageHeader then (2001, w)
      else (let buf = (case p_pageBuffer of
                         None \<Rightarrow> replicate ((cupsHeight pageHeader * cupsBytesPerLine pageHeader)
                                              mod 2 ^ 32) 0
                       | Some b \<Rightarrow> b)
            in (case DoPage p_config pageHeader p_raster buf w of
                  (result, buf', w') \<Rightarrow>
                    if EPTMD_SUCCESS = result then DoJob_loop p_config pages (Some buf') w'
                    else (result, w'))))"

definition DoJob :: "EPTMS_CONFIG_T \<Rightarrow> raster_page list \<Rightarrow> world \<Rightarrow> int \<times> world" where
  "DoJob p_config pages w =
     (case StartJob p_config w of
        (result, w1) \<Rightarrow>
          (case (if EPTMD_SUCCESS = result then DoJob_loop p_config pages None w1
                 else (result, w1)) of
             (result, w2) \<Rightarrow>
               if EPTMD_SUCCESS \<noteq> result then (result, snd (EndJob p_config w2))
               else EndJob p_config w2))"


section \<open>Reading the output\<close>

text \<open>
  The feed command \<open>ESC J n\<close>, the total distance of a sequence of feed commands, and
  the commands \<open>FeedPaper\<close> is expected to write for a distance \<open>d\<close>.
\<close>

definition feed_command :: "nat \<Rightarrow> byte list" where
  "feed_command d = [ESC, 0x4A, of_nat d]"

fun feed_total :: "byte list \<Rightarrow> nat" where
  "feed_total (e # j # n # rest) = unat n + feed_total rest"
| "feed_total _ = 0"

definition feed_bytes :: "nat \<Rightarrow> byte list" where
  "feed_bytes d =
     concat (replicate (d div 255) (feed_command 255))
       @ (if d mod 255 = 0 then [] else feed_command (d mod 255))"

text \<open>Concrete inputs for the examples: a sink that accepts everything, a configuration, a header.\<close>

definition quiet_world :: world where
  "quiet_world = \<lparr>out = [], script = [], g_TmCanceled = False, userfile = (\<lambda>_. NoEnt), uninit_i = 0\<rparr>"

definition slip_config :: "nat \<Rightarrow> EPTME_BLANK_SKIP_TYPE \<Rightarrow> EPTMS_CONFIG_T" where
  "slip_config vmu mode = \<lparr>h_motionUnit = 1, v_motionUnit = vmu, paperReduction = mode,
     buzzerControl = TmBuzzerNotUsed, drawerControl = TmDrawerNotUsed, maxBandLines = 8\<rparr>"

definition slip_header :: "nat \<Rightarrow> nat \<Rightarrow> nat \<Rightarrow> nat \<Rightarrow> cups_page_header_t" where
  "slip_header width height bpl res = \<lparr>cupsWidth = width, cupsHeight = height,
     cupsBytesPerLine = bpl, cupsBitsPerPixel = 1, HWResolution1 = res\<rparr>"

text \<open>
  Scanline \<open>y\<close> of a page buffer holds a non-zero byte; and the 8-scanline page, two
  bytes to the line, whose only non-zero byte lies in scanline 5.
\<close>

definition scanline_nonzero :: "byte list \<Rightarrow> nat \<Rightarrow> nat \<Rightarrow> bool" where
  "scanline_nonzero p_pageBuffer bpl y = (\<exists>x \<in> {0..<bpl}. p_pageBuffer ! (y * bpl + x) \<noteq> 0)"

definition single_pixel_page :: "byte list" where
  "single_pixel_page = replicate 10 0 @ [0, 0x10] @ replicate 4 0"

text \<open>
  What the sanitizer is meant to leave at position \<open>j\<close> of a buffer \<open>p\<close>; the band header
  \<open>ESC * 1 nL nH\<close>; the payload of a band as \<open>WriteBand\<close> builds it; and an 8-scanline
  page, one byte to the line, whose transposed band begins with \<open>0x10, 0x04\<close>.
\<close>

definition sanitized_byte :: "byte list \<Rightarrow> nat \<Rightarrow> byte" where
  "sanitized_byte p j =
     (if j + 1 < length p \<and> p ! j = 0x10
         \<and> (p ! (j + 1) = 0x04 \<or> p ! (j + 1) = 0x05 \<or> p ! (j + 1) = 0x14) then 0x30
      else if j + 1 < length p \<and> p ! j = 0x1B \<and> p ! (j + 1) = 0x3D then 0x3B
      else p ! j)"

definition band_command :: "cups_page_header_t \<Rightarrow> byte list" where
  "band_command h = [ESC, 0x2A, 1, of_nat (cupsWidth h mod 256), of_nat ((cupsWidth h div 256) mod 256)]"

definition band_payload :: "cups_page_header_t \<Rightarrow> byte list \<Rightarrow> nat \<Rightarrow> nat \<Rightarrow> nat \<Rightarrow> byte list" where
  "band_payload h p off lines i0 = AvoidDisturbingData h (make_send_data h p off lines) 0 8 i0"

definition dle_eot_page :: "byte list" where
  "dle_eot_page = [0, 0, 0, 0x80, 0, 0x40, 0, 0]"

text \<open>
  The bytes of one band, and of the bands of a printable range: what the band loop of
  \<open>WriteRaster\<close> and the band after it write when nothing fails and nobody cancels.
  The content of a user file, and whether it can be sent without an error.
\<close>

definition band_bytes ::
  "EPTMS_CONFIG_T \<Rightarrow> cups_page_header_t \<Rightarrow> byte list \<Rightarrow> nat \<Rightarrow> nat \<Rightarrow> nat \<Rightarrow> byte list" where
  "band_bytes c h p off lines i0 =
     band_command h @ band_payload h p off lines i0 @ feed_bytes (feed_point c h 8)"

function raster_bands ::
  "EPTMS_CONFIG_T \<Rightarrow> cups_page_header_t \<Rightarrow> byte list \<Rightarrow> nat \<Rightarrow> nat \<Rightarrow> nat \<Rightarrow> byte list" where
  "raster_bands c h p last_line_no line_no i0 =
     (if (line_no + maxBandLines c) < last_line_no \<and> 0 < maxBandLines c
      then band_bytes c h p (cupsBytesPerLine h * line_no) (maxBandLines c) i0
             @ raster_bands c h p last_line_no (line_no + maxBandLines c) i0
      else if line_no < last_line_no
      then band_bytes c h p (cupsBytesPerLine h * line_no) (last_line_no - line_no) i0
      else [])"
  by pat_completeness auto
termination
  by (relation "measure (\<lambda>(c, h, p, last_line_no, line_no, i0). last_line_no - line_no)") auto

definition ufile_bytes :: "ufile \<Rightarrow> byte list" where
  "ufile_bytes f = (case f of Opened content rd_err close_err \<Rightarrow> content | _ \<Rightarrow> [])"

definition ufile_ok :: "ufile \<Rightarrow> bool" where
  "ufile_ok f = (case f of NoEnt \<Rightarrow> True | OpenFails \<Rightarrow> False
                 | Opened content rd_err close_err \<Rightarrow> \<not> rd_err \<and> \<not> close_err)"

text \<open>The scanline reads of a blank page of 8 scanlines, two bytes to the line.\<close>

definition blank_rows :: "(bool \<times> byte list) list" where
  "blank_rows = replicate 8 (False, [0, 0])"

text \<open>
  A sink whose first \<open>write\<close> fails with an error other than \<open>EINTR\<close> and which accepts
  everything afterwards, with a one-byte \<open>EndJob.prn\<close> user file.
\<close>

definition failing_world :: world where
  "failing_world = \<lparr>out = [], script = [(False, WrError)], g_TmCanceled = False,
     userfile = (\<lambda>n. if n = ''EndJob.prn'' then Opened [0x41] False False else NoEnt), uninit_i = 0\<rparr>"

text \<open>
  A page of 48 scanlines, two bytes to the line: 4 blank scanlines, 40 black ones (five
  bands) and 4 blank ones. A sink with no user files whose script is given; the bytes of
  the job prologue, and the output up to the start of the page, the top margin feed, the
  first band and the second band.
\<close>

definition five_band_rows :: "(bool \<times> byte list) list" where
  "five_band_rows = replicate 4 (False, [0, 0]) @ replicate 40 (False, [0xFF, 0xFF])
                      @ replicate 4 (False, [0, 0])"

definition five_band_page :: "byte list" where
  "five_band_page = replicate 8 0 @ replicate 80 0xFF @ replicate 8 0"

definition job_prologue :: "byte list" where
  "job_prologue = [ESC, 0x3D, 0x01, ESC, 0x40, ESC, 0x63, 0x30, 0x04, ESC, 0x63, 0x31, 0x04,
                   ESC, 0x63, 0x33, 0x00, GS, 0x28, 0x47, 2, 0, 48, 4]"

definition signal_world :: "byte list \<Rightarrow> (bool \<times> wr_outcome) list \<Rightarrow> bool \<Rightarrow> world" where
  "signal_world bs sc g = \<lparr>out = bs, script = sc, g_TmCanceled = g, userfile = (\<lambda>_. NoEnt), uninit_i = 0\<rparr>"

definition page_start_out :: "byte list" where
  "page_start_out = job_prologue @ [GS, 0x28, 0x47, 2, 0, 84, 1]"

definition top_feed_out :: "byte list" where
  "top_feed_out = page_start_out @ [ESC, 0x4A, 4]"




definition fail_script :: "(bool \<times> wr_outcome) list" where
  "fail_script = [(False, Wr 4096), (False, Wr 4096), (False, Wr 4096), (False, Wr 4096),
                  (False, Wr 4096), (False, Wr 4096), (False, Wr 4096), (False, Wr 4096),
                  (False, WrError), (False, Wr 4096), (False, Wr 4096)]"

text \<open>
  The part of a script that follows its first \<open>write\<close> failing with an error other than
  \<open>EINTR\<close>. A stage that ran from a sink with script \<open>sc\<close> to one with script \<open>sc'\<close> and
  returned \<open>r\<close> stops at the failed write: it has consumed a front part of the script, and
  if it has consumed the failing \<open>write\<close>, it has consumed nothing after it and \<open>r\<close> is
  not \<open>EPTMD_SUCCESS\<close>.
\<close>

fun after_error :: "(bool \<times> wr_outcome) list \<Rightarrow> (bool \<times> wr_outcome) list option" where
  "after_error [] = None"
| "after_error (ev # sc) = (if snd ev = WrError then Some sc else after_error sc)"

definition stops_at_error ::
  "(bool \<times> wr_outcome) list \<Rightarrow> int \<Rightarrow> (bool \<times> wr_outcome) list \<Rightarrow> bool" where
  "stops_at_error sc r sc' =
     (suffix sc' sc
      \<and> (case after_error sc of
            None \<Rightarrow> True
          | Some rest \<Rightarrow> length sc' \<le> length rest \<longrightarrow> sc' = rest \<and> r \<noteq> EPTMD_SUCCESS))"


section \<open>Writing and feeding on a sink that accepts everything\<close>

declare WriteData_loop.simps [simp del] FeedPaper_loop.simps [simp del]

lemma WriteData_good: "script w = [] \<Longrightarrow> WriteData p w = (EPTMD_SUCCESS, w\<lparr>out := out w @ p\<rparr>)"
  unfolding WriteData_def by (subst WriteData_loop.simps) (cases p; simp)

lemma feed_point_div:
  "feed_point c h n = ((n * v_motionUnit c) mod 2 ^ 32) div HWResolution1 h"
  unfolding feed_point_def feed_correction_def
  by (simp add: floor_divide_of_nat_eq)

lemma FeedPaper_loop_good:
  "script w = [] \<Longrightarrow>
   FeedPaper_loop point w =
     (EPTMD_SUCCESS, point - 255 * ((point - 1) div 255),
      w\<lparr>out := out w @ concat (replicate ((point - 1) div 255) (feed_command 255))\<rparr>)"
proof (induction point w rule: FeedPaper_loop.induct)
  case (1 point w)
  show ?case
  proof (cases "0xff < point")
    case False
    then have "(point - 1) div 255 = 0" by simp
    with False show ?thesis by (subst FeedPaper_loop.simps) simp
  next
    case True
    let ?w' = "w\<lparr>out := out w @ feed_command 255\<rparr>"
    have wd: "WriteData [ESC, 0x4A, 0xFF] w = (EPTMD_SUCCESS, ?w')"
      using 1(2) by (simp add: WriteData_good feed_command_def)
    have sc: "script ?w' = []" using 1(2) by simp
    have q: "(point - Suc 0) div 255 = Suc ((point - 256) div 255)"
    proof -
      define m where "m = point - 256"
      have pm: "point = m + 256" using True by (simp add: m_def)
      show ?thesis unfolding pm by simp
    qed
    have ih: "FeedPaper_loop (point - 0xff) ?w' = (EPTMD_SUCCESS, point - 255 - 255 * ((point - 255 - 1) div 255),
      ?w'\<lparr>out := out ?w' @ concat (replicate ((point - 255 - 1) div 255) (feed_command 255))\<rparr>)"
      using 1(1)[OF True wd[symmetric] _ sc] by simp
    show ?thesis
      apply (subst FeedPaper_loop.simps)
      using True apply (simp add: wd ih q)
      done
  qed
qed

lemma concat_replicate_snoc: "concat (replicate n c) @ c = concat (replicate (Suc n) c)"
  by (induction n) simp_all

lemma feed_bytes_loop_form:
  assumes "0 < d"
  shows "concat (replicate ((d - 1) div 255) (feed_command 255))
           @ feed_command (d - 255 * ((d - 1) div 255)) = feed_bytes d"
proof (cases "d mod 255 = 0")
  case True
  then obtain q where q: "d = 255 * q" by (auto simp: mod_eq_0_iff_dvd)
  with assms obtain q' where q': "q = Suc q'" by (cases q) auto
  have a: "(d - 1) div 255 = q'" unfolding q q' by simp
  have b: "d div 255 = Suc q'" unfolding q q' by simp
  have c: "d - 255 * q' = 255" unfolding q q' by simp
  have "concat (replicate q' (feed_command 255)) @ feed_command 255
          = concat (replicate (Suc q') (feed_command 255))"
    by (rule concat_replicate_snoc)
  then show ?thesis unfolding feed_bytes_def a b c using True by simp
next
  case False
  define q where "q = d div 255"
  define r where "r = d mod 255"
  have d: "d = 255 * q + r" by (simp add: q_def r_def)
  have r: "0 < r" "r < 255" using False by (simp_all add: r_def)
  then obtain r' where r': "r = Suc r'" by (cases r) auto
  have a: "(d - 1) div 255 = q" unfolding d r' using r(2) r' by simp
  have c: "d - 255 * q = r" unfolding d by simp
  show ?thesis unfolding feed_bytes_def a using False c
    by (simp add: q_def[symmetric] r_def[symmetric])
qed

lemma FeedPaper_good:
  assumes "script w = []"
  shows "FeedPaper c h n w = (EPTMD_SUCCESS, w\<lparr>out := out w @ feed_bytes (feed_point c h n)\<rparr>)"
proof (cases "feed_point c h n = 0")
  case True
  then show ?thesis by (simp add: FeedPaper_def feed_bytes_def)
next
  case False
  define d where "d = feed_point c h n"
  have d: "0 < d" using False by (simp add: d_def)
  define w' where "w' = w\<lparr>out := out w @ concat (replicate ((d - 1) div 255) (feed_command 255))\<rparr>"
  define r where "r = d - 255 * ((d - 1) div 255)"
  have lp: "FeedPaper_loop d w = (EPTMD_SUCCESS, r, w')"
    unfolding w'_def r_def by (rule FeedPaper_loop_good[OF assms])
  have pos: "0 < r"
  proof -
    have "255 * ((d - 1) div 255) \<le> d - 1" by simp
    with d show ?thesis unfolding r_def by linarith
  qed
  have sc: "script w' = []" using assms by (simp add: w'_def)
  have wd: "WriteData [ESC, 0x4A, of_nat r] w'
     = (EPTMD_SUCCESS, w'\<lparr>out := out w' @ feed_command r\<rparr>)"
    using WriteData_good[OF sc] by (simp add: feed_command_def)
  have "FeedPaper c h n w = (EPTMD_SUCCESS, w'\<lparr>out := out w' @ feed_command r\<rparr>)"
    using d pos by (simp add: FeedPaper_def d_def[symmetric] lp wd)
  also have "\<dots> = (EPTMD_SUCCESS, w\<lparr>out := out w @ feed_bytes d\<rparr>)"
    using feed_bytes_loop_form[OF d] by (simp add: w'_def r_def)
  finally show ?thesis by (simp add: d_def)
qed

lemma feed_total_replicate:
  "feed_total (concat (replicate q (feed_command 255)) @ xs) = 255 * q + feed_total xs"
  by (induction q) (simp_all add: feed_command_def)

lemma feed_total_feed_bytes: "feed_total (feed_bytes d) = d"
proof -
  have "feed_total (if d mod 255 = 0 then [] else feed_command (d mod 255)) = d mod 255"
    by (simp add: feed_command_def unat_of_nat take_bit_nat_eq_self)
  then show ?thesis unfolding feed_bytes_def by (simp add: feed_total_replicate)
qed

lemma sum_div_bounds:
  fixes r :: nat
  assumes "0 < r"
  shows "sum_list (map (\<lambda>a. a div r) as) \<le> sum_list as div r
       \<and> sum_list as div r \<le> sum_list (map (\<lambda>a. a div r) as) + (length as - 1)"
proof -
  define qs where "qs = sum_list (map (\<lambda>a. a div r) as)"
  define rs where "rs = sum_list (map (\<lambda>a. a mod r) as)"
  have split: "sum_list as = r * qs + rs"
    unfolding qs_def rs_def by (induction as) (simp_all add: algebra_simps)
  have rs_le: "rs + length as \<le> length as * r"
    unfolding rs_def
  proof (induction as)
    case Nil show ?case by simp
  next
    case (Cons a as)
    have "a mod r + 1 \<le> r" using assms by (simp add: Suc_leI)
    with Cons show ?case by simp
  qed
  have lo: "qs \<le> sum_list as div r"
    unfolding split using assms by (simp add: div_mult_self4)
  have hi: "sum_list as div r \<le> qs + (length as - 1)"
  proof (cases "as = []")
    case True then show ?thesis by (simp add: qs_def)
  next
    case False
    then have k: "0 < length as" by simp
    have "rs < length as * r" using rs_le k by linarith
    then have "rs div r < length as" using assms by (simp add: less_mult_imp_div_less)
    then have "rs div r \<le> length as - 1" by simp
    moreover have "sum_list as div r = qs + rs div r" unfolding split using assms by simp
    ultimately show ?thesis by simp
  qed
  show ?thesis using lo hi by (simp add: qs_def)
qed

section \<open>Feed commands (C8)\<close>

text \<open>
  C8. On a sink that accepts every write, \<open>FeedPaper\<close> emits for the truncated distance
  \<open>d = num_line * v_motionUnit div resolution\<close>: nothing when \<open>d = 0\<close>; otherwise
  \<open>d div 255\<close> commands \<open>ESC J 255\<close> followed, when \<open>d mod 255\<close> is not 0, by one
  command \<open>ESC J (d mod 255)\<close>. The distances of the emitted commands add up to \<open>d\<close>,
  also when \<open>d\<close> is a multiple of 255.
\<close>

theorem FeedPaper_chunks_distance:
  assumes "script w = []" and "0 < HWResolution1 h"
  shows "feed_point c h n = ((n * v_motionUnit c) mod 2 ^ 32) div HWResolution1 h
     \<and> (feed_point c h n = 0 \<longrightarrow> FeedPaper c h n w = (EPTMD_SUCCESS, w))
     \<and> FeedPaper c h n w =
        (EPTMD_SUCCESS,
         w\<lparr>out := out w @ concat (replicate (feed_point c h n div 255) (feed_command 255))
                  @ (if feed_point c h n mod 255 = 0 then []
                     else feed_command (feed_point c h n mod 255))\<rparr>)
     \<and> feed_total (concat (replicate (feed_point c h n div 255) (feed_command 255))
                  @ (if feed_point c h n mod 255 = 0 then []
                     else feed_command (feed_point c h n mod 255))) = feed_point c h n"
proof -
  have a: "FeedPaper c h n w = (EPTMD_SUCCESS, w\<lparr>out := out w @ feed_bytes (feed_point c h n)\<rparr>)"
    by (rule FeedPaper_good[OF assms(1)])
  have b: "feed_point c h n = 0 \<longrightarrow> FeedPaper c h n w = (EPTMD_SUCCESS, w)"
    by (simp add: FeedPaper_def)
  show ?thesis
    using a b feed_total_feed_bytes[of "feed_point c h n"] feed_point_div[of c h n]
    unfolding feed_bytes_def by simp
qed


theorem FeedPaper_chunks_distance_witness:
  "script quiet_world = [] \<and> 0 < HWResolution1 (slip_header 8 8 1 1)
   \<and> feed_point (slip_config 255 TmPaperReductionOff) (slip_header 8 8 1 1) 2 = 510
   \<and> FeedPaper (slip_config 255 TmPaperReductionOff) (slip_header 8 8 1 1) 2 quiet_world
       = (EPTMD_SUCCESS, quiet_world\<lparr>out := [ESC, 0x4A, 0xFF, ESC, 0x4A, 0xFF]\<rparr>)
   \<and> feed_point (slip_config 100 TmPaperReductionOff) (slip_header 8 8 1 1) 3 = 300
   \<and> FeedPaper (slip_config 100 TmPaperReductionOff) (slip_header 8 8 1 1) 3 quiet_world
       = (EPTMD_SUCCESS, quiet_world\<lparr>out := [ESC, 0x4A, 0xFF, ESC, 0x4A, 45]\<rparr>)"
proof -
  have s: "script quiet_world = []" by (simp add: quiet_world_def)
  have r: "0 < HWResolution1 (slip_header 8 8 1 1)" by (simp add: slip_header_def)
  have p1: "feed_point (slip_config 255 TmPaperReductionOff) (slip_header 8 8 1 1) 2 = 510"
    using FeedPaper_chunks_distance[OF s r, of "slip_config 255 TmPaperReductionOff" 2]
    by (simp add: slip_config_def slip_header_def)
  have p2: "feed_point (slip_config 100 TmPaperReductionOff) (slip_header 8 8 1 1) 3 = 300"
    using FeedPaper_chunks_distance[OF s r, of "slip_config 100 TmPaperReductionOff" 3]
    by (simp add: slip_config_def slip_header_def)
  have two: "replicate 2 x = [x, x]" for x :: "byte list"
    by (simp add: numeral_2_eq_2)
  show ?thesis
    using s r p1 p2 FeedPaper_chunks_distance[OF s r, of "slip_config 255 TmPaperReductionOff" 2]
      FeedPaper_chunks_distance[OF s r, of "slip_config 100 TmPaperReductionOff" 3]
    by (simp add: feed_command_def quiet_world_def two)
qed

section \<open>Feed distances of successive calls (C1)\<close>

lemma feed_point_small:
  assumes "n * v_motionUnit c < 2 ^ 32"
  shows "feed_point c h n = (n * v_motionUnit c) div HWResolution1 h"
  using assms by (simp add: feed_point_div)

lemma map_feed_point_small:
  assumes "sum_list ns * v_motionUnit c < 2 ^ 32"
  shows "map (feed_point c h) ns = map (\<lambda>a. a div HWResolution1 h) (map (\<lambda>n. n * v_motionUnit c) ns)"
proof -
  have "n * v_motionUnit c < 2 ^ 32" if "n \<in> set ns" for n
  proof -
    have "n \<le> sum_list ns" using that by (simp add: member_le_sum_list)
    then have "n * v_motionUnit c \<le> sum_list ns * v_motionUnit c" by (rule mult_le_mono1)
    with assms show ?thesis by linarith
  qed
  then show ?thesis by (simp add: feed_point_small)
qed

lemma sum_list_scaled: "sum_list (map (\<lambda>n. n * (v::nat)) ns) = sum_list ns * v"
  by (induction ns) (simp_all add: algebra_simps)

text \<open>
  C1, as the code has it. \<open>FeedPaper\<close> keeps nothing between calls: each call emits the
  truncated integer part of its own \<open>num_line * v_motionUnit / resolution\<close> and drops
  the fractional part. For successive scanline counts \<open>ns\<close> (the 32-bit product of
  their total not wrapping) the sum of the emitted distances is at most the truncated
  distance of the total computed in one call, and falls short of it by less than the
  number of calls. For motion unit 10, resolution 203 and counts 3, 3, 3 both are 0.
\<close>

theorem feed_distance_no_carry:
  assumes "0 < HWResolution1 h" and "sum_list ns * v_motionUnit c < 2 ^ 32"
  shows "sum_list (map (feed_point c h) ns) \<le> feed_point c h (sum_list ns)
       \<and> feed_point c h (sum_list ns) \<le> sum_list (map (feed_point c h) ns) + (length ns - 1)"
proof -
  have "sum_list (map (\<lambda>a. a div HWResolution1 h) (map (\<lambda>n. n * v_motionUnit c) ns))
          \<le> sum_list (map (\<lambda>n. n * v_motionUnit c) ns) div HWResolution1 h
      \<and> sum_list (map (\<lambda>n. n * v_motionUnit c) ns) div HWResolution1 h
          \<le> sum_list (map (\<lambda>a. a div HWResolution1 h) (map (\<lambda>n. n * v_motionUnit c) ns))
             + (length (map (\<lambda>n. n * v_motionUnit c) ns) - 1)"
    by (rule sum_div_bounds[OF assms(1)])
  then show ?thesis
    unfolding map_feed_point_small[OF assms(2)] feed_point_small[OF assms(2)] sum_list_scaled
    by simp
qed

theorem feed_distance_no_carry_witness:
  "0 < HWResolution1 (slip_header 8 8 2 203)
   \<and> sum_list [3, 3, 3] * v_motionUnit (slip_config 10 TmPaperReductionOff) < 2 ^ 32
   \<and> sum_list (map (feed_point (slip_config 10 TmPaperReductionOff) (slip_header 8 8 2 203)) [3, 3, 3]) = 0
   \<and> feed_point (slip_config 10 TmPaperReductionOff) (slip_header 8 8 2 203) (sum_list [3, 3, 3]) = 0"
proof -
  have r: "0 < HWResolution1 (slip_header 8 8 2 203)" by (simp add: slip_header_def)
  have b: "sum_list [3, 3, 3] * v_motionUnit (slip_config 10 TmPaperReductionOff) < 2 ^ 32"
    by (simp add: slip_config_def)
  have nine: "feed_point (slip_config 10 TmPaperReductionOff) (slip_header 8 8 2 203) (sum_list [3, 3, 3]) = 0"
    by (simp add: feed_point_div slip_config_def slip_header_def)
  show ?thesis using r b nine feed_distance_no_carry[OF r b] by simp
qed

text \<open>
  C1, as stated, fails: with motion unit 10 and resolution 203, two calls for 11
  scanlines emit nothing (distance 0 each), one call for 22 scanlines emits \<open>ESC J 1\<close>.
\<close>

theorem feed_distance_carry_counterexample:
  "feed_point (slip_config 10 TmPaperReductionOff) (slip_header 8 8 2 203) 11
     + feed_point (slip_config 10 TmPaperReductionOff) (slip_header 8 8 2 203) 11
   \<noteq> feed_point (slip_config 10 TmPaperReductionOff) (slip_header 8 8 2 203) 22
   \<and> out (snd (FeedPaper (slip_config 10 TmPaperReductionOff) (slip_header 8 8 2 203) 11
        (snd (FeedPaper (slip_config 10 TmPaperReductionOff) (slip_header 8 8 2 203) 11 quiet_world)))) = []
   \<and> out (snd (FeedPaper (slip_config 10 TmPaperReductionOff) (slip_header 8 8 2 203) 22 quiet_world))
       = [ESC, 0x4A, 1]"
proof -
  have a: "feed_point (slip_config 10 TmPaperReductionOff) (slip_header 8 8 2 203) 11 = 0"
    by (simp add: feed_point_div slip_config_def slip_header_def)
  have b: "feed_point (slip_config 10 TmPaperReductionOff) (slip_header 8 8 2 203) 22 = 1"
    by (simp add: feed_point_div slip_config_def slip_header_def)
  have s: "script quiet_world = []" by (simp add: quiet_world_def)
  have f1: "FeedPaper (slip_config 10 TmPaperReductionOff) (slip_header 8 8 2 203) 11 quiet_world
      = (EPTMD_SUCCESS, quiet_world)"
    using FeedPaper_good[OF s, of "slip_config 10 TmPaperReductionOff" "slip_header 8 8 2 203" 11]
    by (simp add: a feed_bytes_def)
  have f2: "FeedPaper (slip_config 10 TmPaperReductionOff) (slip_header 8 8 2 203) 22 quiet_world
      = (EPTMD_SUCCESS, quiet_world\<lparr>out := out quiet_world @ [ESC, 0x4A, 1]\<rparr>)"
    using FeedPaper_good[OF s, of "slip_config 10 TmPaperReductionOff" "slip_header 8 8 2 203" 22]
    by (simp add: b feed_bytes_def feed_command_def)
  have o: "out quiet_world = []" by (simp add: quiet_world_def)
  show ?thesis by (simp add: f1 f2 a b o)
qed

section \<open>Margin detection (C4)\<close>

declare FindBlackRasterLineTop_loop.simps [simp del] FindBlackRasterLineEnd_loop.simps [simp del]

lemma nat_offset: "nat (int a + int x) = a + x"
  by linarith

lemma line_is_black_iff:
  "line_is_black buf (int (bpl * y)) bpl = scanline_nonzero buf bpl y"
  unfolding line_is_black_def scanline_nonzero_def list_ex_iff nat_offset
  by (simp add: mult.commute)

lemma line_is_black_iff': "line_is_black buf (int bpl * int y) bpl = scanline_nonzero buf bpl y"
  using line_is_black_iff[of buf bpl y] by simp

lemma Top_loop_step:
  assumes "y < cupsHeight h"
  shows "FindBlackRasterLineTop_loop h buf y (int (cupsBytesPerLine h * y))
     = (if scanline_nonzero buf (cupsBytesPerLine h) y then y
        else FindBlackRasterLineTop_loop h buf (Suc y) (int (cupsBytesPerLine h * Suc y)))"
proof -
  have p: "int (cupsBytesPerLine h * y) + int (cupsBytesPerLine h) = int (cupsBytesPerLine h * Suc y)"
    by (simp add: algebra_simps)
  show ?thesis
    apply (subst FindBlackRasterLineTop_loop.simps)
    unfolding line_is_black_iff p Suc_eq_plus1[symmetric]
    using assms by simp
qed

lemma Top_loop_stop:
  "FindBlackRasterLineTop_loop h buf (cupsHeight h) p = cupsHeight h"
  by (subst FindBlackRasterLineTop_loop.simps) simp

lemma Top_loop_spec:
  assumes "y \<le> cupsHeight h" and "r = FindBlackRasterLineTop_loop h buf y (int (cupsBytesPerLine h * y))"
  shows "y \<le> r \<and> r \<le> cupsHeight h
       \<and> (\<forall>y'. y \<le> y' \<and> y' < r \<longrightarrow> \<not> scanline_nonzero buf (cupsBytesPerLine h) y')
       \<and> (r < cupsHeight h \<longrightarrow> scanline_nonzero buf (cupsBytesPerLine h) r)"
  using assms
proof (induction "cupsHeight h - y" arbitrary: y)
  case 0
  then have "y = cupsHeight h" by simp
  with 0(3) have "r = cupsHeight h" by (simp add: Top_loop_stop)
  then show ?case using \<open>y = cupsHeight h\<close> by auto
next
  case (Suc k)
  then have lt: "y < cupsHeight h" by simp
  show ?case
  proof (cases "scanline_nonzero buf (cupsBytesPerLine h) y")
    case True
    have "r = y" using Suc(4) True by (simp only: Top_loop_step[OF lt] if_True)
    then show ?thesis using lt True by auto
  next
    case False
    have r: "r = FindBlackRasterLineTop_loop h buf (Suc y) (int (cupsBytesPerLine h * Suc y))"
      using Suc(4) False by (simp only: Top_loop_step[OF lt] if_False)
    have k: "k = cupsHeight h - Suc y" using Suc(2) by simp
    have le: "Suc y \<le> cupsHeight h" using lt by simp
    have ih: "Suc y \<le> r \<and> r \<le> cupsHeight h
       \<and> (\<forall>y'. Suc y \<le> y' \<and> y' < r \<longrightarrow> \<not> scanline_nonzero buf (cupsBytesPerLine h) y')
       \<and> (r < cupsHeight h \<longrightarrow> scanline_nonzero buf (cupsBytesPerLine h) r)"
      by (rule Suc(1)[OF k le r])
    have "\<not> scanline_nonzero buf (cupsBytesPerLine h) y'" if "y \<le> y'" "y' < r" for y'
    proof (cases "y' = y")
      case True then show ?thesis using False by simp
    next
      case False
      then have "Suc y \<le> y'" using that(1) by simp
      then show ?thesis using ih that(2) by blast
    qed
    then show ?thesis using ih by auto
  qed
qed

lemma End_loop_step:
  assumes "k < cupsHeight h"
  shows "FindBlackRasterLineEnd_loop h buf (cupsHeight h - Suc k)
             (int (cupsBytesPerLine h * Suc k) - int (cupsBytesPerLine h))
     = (if scanline_nonzero buf (cupsBytesPerLine h) k then k
        else FindBlackRasterLineEnd_loop h buf (cupsHeight h - k)
               (int (cupsBytesPerLine h * k) - int (cupsBytesPerLine h)))"
proof -
  have p: "int (cupsBytesPerLine h * Suc k) - int (cupsBytesPerLine h) = int (cupsBytesPerLine h * k)"
    by (simp add: algebra_simps)
  have y: "cupsHeight h - Suc k + 1 = cupsHeight h - k" using assms by simp
  have r: "cupsHeight h - 1 - (cupsHeight h - Suc k) = k" using assms by simp
  have lt: "cupsHeight h - Suc k < cupsHeight h" using assms by simp
  show ?thesis
    apply (subst FindBlackRasterLineEnd_loop.simps)
    unfolding p line_is_black_iff y r
    using lt by simp
qed

lemma End_loop_stop: "FindBlackRasterLineEnd_loop h buf (cupsHeight h) p = 0"
  by (subst FindBlackRasterLineEnd_loop.simps) simp

lemma End_loop_spec:
  assumes "k \<le> cupsHeight h"
    and "r = FindBlackRasterLineEnd_loop h buf (cupsHeight h - k)
             (int (cupsBytesPerLine h * k) - int (cupsBytesPerLine h))"
  shows "(r < k \<and> scanline_nonzero buf (cupsBytesPerLine h) r
          \<and> (\<forall>l. r < l \<and> l < k \<longrightarrow> \<not> scanline_nonzero buf (cupsBytesPerLine h) l))
       \<or> (r = 0 \<and> (\<forall>l<k. \<not> scanline_nonzero buf (cupsBytesPerLine h) l))"
  using assms
proof (induction k)
  case 0
  then have "r = 0" by (simp add: End_loop_stop)
  then show ?case by simp
next
  case (Suc k)
  have lt: "k < cupsHeight h" using Suc(2) by simp
  show ?case
  proof (cases "scanline_nonzero buf (cupsBytesPerLine h) k")
    case True
    have "r = k" using Suc(3) True by (simp only: End_loop_step[OF lt] if_True)
    then show ?thesis using True by (auto simp: less_Suc_eq)
  next
    case False
    have r: "r = FindBlackRasterLineEnd_loop h buf (cupsHeight h - k)
               (int (cupsBytesPerLine h * k) - int (cupsBytesPerLine h))"
      using Suc(3) False by (simp only: End_loop_step[OF lt] if_False)
    have le: "k \<le> cupsHeight h" using lt by simp
    show ?thesis using Suc(1)[OF le r] False by (auto simp: less_Suc_eq)
  qed
qed

lemma End_start:
  assumes "0 < cupsHeight h" "cupsHeight h < 2 ^ 32" "cupsBytesPerLine h * cupsHeight h < 2 ^ 32"
  shows "int ((cupsBytesPerLine h * ((cupsHeight h + (2 ^ 32 - 1)) mod 2 ^ 32)) mod 2 ^ 32)
       = int (cupsBytesPerLine h * cupsHeight h) - int (cupsBytesPerLine h)"
proof -
  obtain n where n: "cupsHeight h = Suc n" using assms(1) by (cases "cupsHeight h") auto
  have "cupsHeight h + (2 ^ 32 - 1) = n + 1 * 2 ^ 32" unfolding n by simp
  then have a: "(cupsHeight h + (2 ^ 32 - 1)) mod 2 ^ 32 = n mod 2 ^ 32"
    by (simp only: mod_mult_self1)
  have b: "n mod 2 ^ 32 = n" using assms(2) n by simp
  have "cupsBytesPerLine h * n \<le> cupsBytesPerLine h * cupsHeight h" unfolding n by simp
  then have "cupsBytesPerLine h * n < 2 ^ 32" using assms(3) by linarith
  then have c: "(cupsBytesPerLine h * n) mod 2 ^ 32 = cupsBytesPerLine h * n"
    by (rule mod_less)
  show ?thesis unfolding a b c unfolding n by (simp add: algebra_simps)
qed

lemma single_pixel_top: "FindBlackRasterLineTop (slip_header 16 8 2 203) single_pixel_page = 5"
  by code_simp

lemma single_pixel_end: "FindBlackRasterLineEnd (slip_header 16 8 2 203) single_pixel_page = 5"
proof -
  have p: "int ((cupsBytesPerLine (slip_header 16 8 2 203)
                  * ((cupsHeight (slip_header 16 8 2 203) + (2 ^ 32 - 1)) mod 2 ^ 32)) mod 2 ^ 32) = 14"
    by (simp add: slip_header_def)
  have "FindBlackRasterLineEnd_loop (slip_header 16 8 2 203) single_pixel_page 0 14 = 5"
    by code_simp
  then show ?thesis unfolding FindBlackRasterLineEnd_def p .
qed

text \<open>
  C4. For a page buffer of \<open>cupsHeight\<close> scanlines (its size fitting 32 bits),
  \<open>FindBlackRasterLineTop\<close> returns the smallest index of a scanline that holds a
  non-zero byte, or \<open>cupsHeight\<close> if there is none; \<open>FindBlackRasterLineEnd\<close> returns the
  largest such index, or 0 if there is none. For the 8-scanline page whose only non-zero
  byte is in scanline 5 both return 5, and the printable range is from 5 to 6.
\<close>

theorem margin_scan_bounds:
  assumes "length buf = cupsHeight h * cupsBytesPerLine h"
    and "cupsHeight h < 2 ^ 32" and "cupsBytesPerLine h * cupsHeight h < 2 ^ 32"
  shows "FindBlackRasterLineTop h buf \<le> cupsHeight h
     \<and> (\<forall>y < FindBlackRasterLineTop h buf. \<not> scanline_nonzero buf (cupsBytesPerLine h) y)
     \<and> (FindBlackRasterLineTop h buf < cupsHeight h
          \<longrightarrow> scanline_nonzero buf (cupsBytesPerLine h) (FindBlackRasterLineTop h buf))
     \<and> ((\<forall>y < cupsHeight h. \<not> scanline_nonzero buf (cupsBytesPerLine h) y)
          \<longrightarrow> FindBlackRasterLineTop h buf = cupsHeight h \<and> FindBlackRasterLineEnd h buf = 0)
     \<and> ((\<exists>y < cupsHeight h. scanline_nonzero buf (cupsBytesPerLine h) y)
          \<longrightarrow> FindBlackRasterLineEnd h buf < cupsHeight h
              \<and> scanline_nonzero buf (cupsBytesPerLine h) (FindBlackRasterLineEnd h buf)
              \<and> (\<forall>y. FindBlackRasterLineEnd h buf < y \<and> y < cupsHeight h
                     \<longrightarrow> \<not> scanline_nonzero buf (cupsBytesPerLine h) y))"
proof -
  define t where "t = FindBlackRasterLineTop h buf"
  define e where "e = FindBlackRasterLineEnd h buf"
  have t: "t = FindBlackRasterLineTop_loop h buf 0 (int (cupsBytesPerLine h * 0))"
    by (simp add: t_def FindBlackRasterLineTop_def)
  have T: "t \<le> cupsHeight h
       \<and> (\<forall>y'. 0 \<le> y' \<and> y' < t \<longrightarrow> \<not> scanline_nonzero buf (cupsBytesPerLine h) y')
       \<and> (t < cupsHeight h \<longrightarrow> scanline_nonzero buf (cupsBytesPerLine h) t)"
    using Top_loop_spec[OF _ t] by simp
  have E: "(e < cupsHeight h \<and> scanline_nonzero buf (cupsBytesPerLine h) e
          \<and> (\<forall>l. e < l \<and> l < cupsHeight h \<longrightarrow> \<not> scanline_nonzero buf (cupsBytesPerLine h) l))
       \<or> (e = 0 \<and> (\<forall>l<cupsHeight h. \<not> scanline_nonzero buf (cupsBytesPerLine h) l))"
  proof (cases "cupsHeight h = 0")
    case True
    then have "e = 0"
      using End_loop_stop[of h buf] by (simp add: e_def FindBlackRasterLineEnd_def)
    then show ?thesis using True by simp
  next
    case False
    then have pos: "0 < cupsHeight h" by simp
    have e: "e = FindBlackRasterLineEnd_loop h buf (cupsHeight h - cupsHeight h)
             (int (cupsBytesPerLine h * cupsHeight h) - int (cupsBytesPerLine h))"
      unfolding e_def FindBlackRasterLineEnd_def End_start[OF pos assms(2,3)] by simp
    show ?thesis by (rule End_loop_spec[OF le_refl e])
  qed
  have "t \<le> cupsHeight h
     \<and> (\<forall>y < t. \<not> scanline_nonzero buf (cupsBytesPerLine h) y)
     \<and> (t < cupsHeight h \<longrightarrow> scanline_nonzero buf (cupsBytesPerLine h) t)
     \<and> ((\<forall>y < cupsHeight h. \<not> scanline_nonzero buf (cupsBytesPerLine h) y)
          \<longrightarrow> t = cupsHeight h \<and> e = 0)
     \<and> ((\<exists>y < cupsHeight h. scanline_nonzero buf (cupsBytesPerLine h) y)
          \<longrightarrow> e < cupsHeight h
              \<and> scanline_nonzero buf (cupsBytesPerLine h) e
              \<and> (\<forall>y. e < y \<and> y < cupsHeight h \<longrightarrow> \<not> scanline_nonzero buf (cupsBytesPerLine h) y))"
    using T E by (auto simp: order.order_iff_strict)
  then show ?thesis unfolding t_def e_def .
qed

theorem margin_scan_bounds_witness:
  "length single_pixel_page = cupsHeight (slip_header 16 8 2 203) * cupsBytesPerLine (slip_header 16 8 2 203)
   \<and> cupsHeight (slip_header 16 8 2 203) < 2 ^ 32
   \<and> cupsBytesPerLine (slip_header 16 8 2 203) * cupsHeight (slip_header 16 8 2 203) < 2 ^ 32
   \<and> list_all (\<lambda>y. scanline_nonzero single_pixel_page 2 y \<longleftrightarrow> y = 5) [0..<8]
   \<and> FindBlackRasterLineTop (slip_header 16 8 2 203) single_pixel_page = 5
   \<and> FindBlackRasterLineEnd (slip_header 16 8 2 203) single_pixel_page = 5
   \<and> FindBlackRasterLineEnd (slip_header 16 8 2 203) single_pixel_page + 1 = 6
   \<and> scanline_nonzero single_pixel_page (cupsBytesPerLine (slip_header 16 8 2 203)) 5"
proof -
  have a: "length single_pixel_page
      = cupsHeight (slip_header 16 8 2 203) * cupsBytesPerLine (slip_header 16 8 2 203)"
    by (simp add: single_pixel_page_def slip_header_def)
  have b: "cupsHeight (slip_header 16 8 2 203) < 2 ^ 32" by (simp add: slip_header_def)
  have c: "cupsBytesPerLine (slip_header 16 8 2 203) * cupsHeight (slip_header 16 8 2 203) < 2 ^ 32"
    by (simp add: slip_header_def)
  have d: "list_all (\<lambda>y. scanline_nonzero single_pixel_page 2 y \<longleftrightarrow> y = 5) [0..<8]"
    by code_simp
  have e: "cupsHeight (slip_header 16 8 2 203) = 8" by (simp add: slip_header_def)
  have nz: "scanline_nonzero single_pixel_page (cupsBytesPerLine (slip_header 16 8 2 203)) 5"
    using margin_scan_bounds[OF a b c, THEN conjunct2, THEN conjunct2, THEN conjunct1]
    unfolding single_pixel_top e by simp
  show ?thesis
    using a b c d nz single_pixel_top single_pixel_end by simp
qed

section \<open>Band transposition (C2)\<close>

lemma concat_rows_length: "length (concat (map (\<lambda>x. map (f x) [0..<m]) [0..<n])) = n * m"
  by (induction n) simp_all

lemma concat_rows_nth:
  assumes "x < n" "b < m"
  shows "concat (map (\<lambda>x. map (f x) [0..<m]) [0..<n]) ! (x * m + b) = f x b"
  using assms
proof (induction n)
  case 0 then show ?case by simp
next
  case (Suc n)
  show ?case
  proof (cases "x < n")
    case True
    have "x * m + b < n * m"
    proof -
      have "x * m + b < x * m + m" using Suc(3) by simp
      also have "\<dots> = Suc x * m" by simp
      also have "\<dots> \<le> n * m" using True by (intro mult_le_mono1) simp
      finally show ?thesis .
    qed
    then show ?thesis using Suc True by (simp add: nth_append concat_rows_length)
  next
    case False
    then have "x = n" using Suc(2) by simp
    then show ?thesis using Suc(3) by (simp add: nth_append concat_rows_length)
  qed
qed

lemma pin_bit:
  assumes "m = 2 ^ s" "s < 8" "bitno < 8"
  shows "bit (ucast (push_bit s (drop_bit (7 - bitno) (ucast (v :: byte) :: 32 word)) AND m) :: byte) n
       = (n = s \<and> bit v (7 - bitno))"
  using assms
  by (auto simp: bit_ucast_iff bit_and_iff bit_push_bit_iff bit_drop_bit_eq bit_exp_iff)

lemmas pin_bits =
  pin_bit[where s = 7 and m = "0x80", simplified]
  pin_bit[where s = 6 and m = "0x40", simplified]
  pin_bit[where s = 5 and m = "0x20", simplified]
  pin_bit[where s = 4 and m = "0x10", simplified]
  pin_bit[where s = 3 and m = "0x08", simplified]
  pin_bit[where s = 2 and m = "0x04", simplified]
  pin_bit[where s = 1 and m = "0x02", simplified]
  pin_bit[where s = 0 and m = "0x01", simplified]

lemma send_byte_bit:
  assumes "bitno < 8"
  shows "bit (send_byte p off bpl lines x bitno) n
       = (n < 8 \<and> 7 - n < lines \<and> bit (p ! (off + (7 - n) * bpl + x)) (7 - bitno))"
proof -
  have k: "n = 7 \<or> n = 6 \<or> n = 5 \<or> n = 4 \<or> n = 3 \<or> n = 2 \<or> n = 1 \<or> n = 0 \<or> 8 \<le> n"
    by linarith
  have big: "\<not> bit (w :: byte) n" if "8 \<le> n" for w
    using that by (auto dest: bit_imp_le_length)
  show ?thesis
    using k
  proof (elim disjE)
    assume "8 \<le> n"
    then show ?thesis using big by simp
  qed (simp_all add: send_byte_def Let_def band_byte_def bit_or_iff pin_bits[OF assms])
qed

text \<open>
  C2. For a band of 1 to 8 scanlines that lies inside the page buffer, the transposed
  output has \<open>cupsBytesPerLine * 8\<close> bytes, and the bit \<open>k\<close> (counted from the most
  significant) of the output byte \<open>x * 8 + b\<close> is the bit \<open>b\<close> (counted likewise) of the
  byte \<open>x\<close> of scanline \<open>k\<close> for \<open>k\<close> below the band size, and 0 above. One byte to
  the line and the scanlines \<open>0b10000000\<close>, \<open>0b01000000\<close> give the output
  \<open>0b10000000\<close>, \<open>0b01000000\<close> and six zero bytes.
\<close>

theorem transpose_band_bits:
  assumes "1 \<le> lines" and "lines \<le> 8"
    and "off + lines * cupsBytesPerLine h \<le> length p"
  shows "length (make_send_data h p off lines) = cupsBytesPerLine h * 8
     \<and> (\<forall>x < cupsBytesPerLine h. \<forall>b < 8. \<forall>k < 8.
           bit (make_send_data h p off lines ! (x * 8 + b)) (7 - k)
             = (k < lines \<and> bit (p ! (off + k * cupsBytesPerLine h + x)) (7 - b)))"
proof -
  have len: "length (make_send_data h p off lines) = cupsBytesPerLine h * 8"
    unfolding make_send_data_def by (rule concat_rows_length)
  have "bit (make_send_data h p off lines ! (x * 8 + b)) (7 - k)
             = (k < lines \<and> bit (p ! (off + k * cupsBytesPerLine h + x)) (7 - b))"
    if "x < cupsBytesPerLine h" "b < 8" "k < 8" for x b k
  proof -
    have "make_send_data h p off lines ! (x * 8 + b)
        = send_byte p off (cupsBytesPerLine h) lines x b"
      unfolding make_send_data_def using that(1,2) by (rule concat_rows_nth)
    moreover have "7 - (7 - k) = k" using that(3) by simp
    moreover have "7 - k < 8" by simp
    ultimately show ?thesis by (simp only: send_byte_bit[OF that(2)] simp_thms)
  qed
  with len show ?thesis by blast
qed

theorem transpose_band_bits_witness:
  "(1::nat) \<le> 2 \<and> (2::nat) \<le> 8
   \<and> 0 + 2 * cupsBytesPerLine (slip_header 8 2 1 203) \<le> length [0x80, 0x40 :: byte]
   \<and> make_send_data (slip_header 8 2 1 203) [0x80, 0x40] 0 2 = [0x80, 0x40, 0, 0, 0, 0, 0, 0]
   \<and> length (make_send_data (slip_header 8 2 1 203) [0x80, 0x40] 0 2)
       = cupsBytesPerLine (slip_header 8 2 1 203) * 8"
proof -
  have a: "(1::nat) \<le> 2" and b: "(2::nat) \<le> 8" by simp_all
  have c: "0 + 2 * cupsBytesPerLine (slip_header 8 2 1 203) \<le> length [0x80, 0x40 :: byte]"
    by (simp add: slip_header_def)
  have d: "make_send_data (slip_header 8 2 1 203) [0x80, 0x40] 0 2 = [0x80, 0x40, 0, 0, 0, 0, 0, 0]"
    by code_simp
  show ?thesis
    using a b c d transpose_band_bits[OF a b c, THEN conjunct1] by blast
qed

section \<open>Sanitizing and band output\<close>

declare AvoidDisturbingData_loop.simps [simp del]

lemma AvoidDisturbingData_loop_length:
  "length (AvoidDisturbingData_loop i data_size p) = length p"
proof (induction i data_size p rule: AvoidDisturbingData_loop.induct)
  case (1 i data_size p_data)
  show ?case
  proof (cases "(i + 1) mod 2 ^ 64 < data_size mod 2 ^ 64")
    case False
    then show ?thesis by (subst AvoidDisturbingData_loop.simps) simp
  next
    case True
    show ?thesis
      using True 1[OF True] by (subst AvoidDisturbingData_loop.simps) simp
  qed
qed

lemma AvoidDisturbingData_loop_spec:
  assumes "length p < 2 ^ 64" "i + 1 < 2 ^ 64"
  shows "length (AvoidDisturbingData_loop i (length p) p) = length p
   \<and> (\<forall>j < length p. AvoidDisturbingData_loop i (length p) p ! j
          = (if j < i then p ! j else sanitized_byte p j))"
  using assms
proof (induction "length p - (i + 1)" arbitrary: i p)
  case 0
  have m: "(i + 1) mod 2 ^ 64 = i + 1" "length p mod 2 ^ 64 = length p"
    using 0(2,3) by simp_all
  have nl: "\<not> i + 1 < length p" using 0(1) by simp
  have stop: "AvoidDisturbingData_loop i (length p) p = p"
    using nl by (subst AvoidDisturbingData_loop.simps, unfold m) simp
  have "sanitized_byte p j = p ! j" if "j < length p" "\<not> j < i" for j
    using that 0(1) by (simp add: sanitized_byte_def)
  then show ?case unfolding stop by simp
next
  case (Suc k)
  then have lt: "i + 1 < length p" by simp
  have m: "(i + 1) mod 2 ^ 64 = i + 1" "length p mod 2 ^ 64 = length p"
    using Suc(3,4) by simp_all
  define p' where "p' = (if 0x10 = p ! i
              then (if (0x04 = p ! (i + 1)) \<or> (0x05 = p ! (i + 1)) \<or> (0x14 = p ! (i + 1))
                    then p[i := 0x30] else p)
              else if 0x1B = p ! i
              then (if 0x3D = p ! (i + 1) then p[i := 0x3B] else p)
              else p)"
  have len: "length p' = length p" by (simp add: p'_def)
  have step: "AvoidDisturbingData_loop i (length p) p = AvoidDisturbingData_loop (i + 1) (length p') p'"
    unfolding len p'_def using lt by (subst AvoidDisturbingData_loop.simps, unfold m) simp
  have k: "k = length p' - (i + 1 + 1)" using Suc(2) len by simp
  have b1: "length p' < 2 ^ 64" using Suc(3) len by simp
  have b2: "i + 1 + 1 < 2 ^ 64" using lt Suc(3) by simp
  have ih: "length (AvoidDisturbingData_loop (i + 1) (length p') p') = length p'
   \<and> (\<forall>j < length p'. AvoidDisturbingData_loop (i + 1) (length p') p' ! j
          = (if j < i + 1 then p' ! j else sanitized_byte p' j))"
    by (rule Suc(1)[OF k b1 b2])
  have at_i: "p' ! i = sanitized_byte p i"
    using lt by (auto simp: p'_def sanitized_byte_def)
  have other: "p' ! j = p ! j" if "j \<noteq> i" for j
    using that by (simp add: p'_def)
  have later: "sanitized_byte p' j = sanitized_byte p j" if "i < j" for j
    using that by (simp add: sanitized_byte_def len other)
  have "AvoidDisturbingData_loop (i + 1) (length p') p' ! j
          = (if j < i then p ! j else sanitized_byte p j)" if "j < length p" for j
  proof -
    consider "j < i" | "j = i" | "i < j" by linarith
    then show ?thesis
    proof cases
      case 1 then show ?thesis using ih that len other by simp
    next
      case 2 then show ?thesis using ih that len at_i by simp
    next
      case 3 then show ?thesis using ih that len later by simp
    qed
  qed
  then show ?case unfolding step using ih len by simp
qed

text \<open>
  Entered with the largest \<open>unsigned long\<close>, the index wraps to 0 in the loop condition
  and the loop goes through the whole buffer, as if it had started at 0.
\<close>

lemma AvoidDisturbingData_loop_wraps:
  assumes "length p < 2 ^ 64"
  shows "AvoidDisturbingData_loop (2 ^ 64 - 1) (length p) p = AvoidDisturbingData_loop 0 (length p) p"
proof (cases "length p = 0")
  case True
  have "AvoidDisturbingData_loop i 0 p = p" for i
    by (subst AvoidDisturbingData_loop.simps) simp
  then show ?thesis using True by simp
next
  case False
  have m: "(2 ^ 64 - 1 + 1) mod 2 ^ 64 = (0 :: nat)" "length p mod 2 ^ 64 = length p"
    using assms by simp_all
  have "length p \<le> 2 ^ 64 - 1" using assms by simp
  then have b: "p[2 ^ 64 - 1 := v] = p" for v
    by (rule list_update_beyond)
  have "AvoidDisturbingData_loop (2 ^ 64 - 1) (length p) p
      = AvoidDisturbingData_loop 0 (length p) p"
    using False by (subst AvoidDisturbingData_loop.simps, unfold m b) simp
  then show ?thesis .
qed

lemma WriteData_good_fields:
  assumes "script w = []"
  shows "script (snd (WriteData p w)) = []" "uninit_i (snd (WriteData p w)) = uninit_i w"
    "g_TmCanceled (snd (WriteData p w)) = g_TmCanceled w"
  by (simp_all add: WriteData_good[OF assms] assms)

lemma WriteBand_good:
  assumes "script w = []"
  shows "WriteBand c h p off lines w =
     (EPTMD_SUCCESS, w\<lparr>out := out w @ band_command h @ band_payload h p off lines (uninit_i w)
                              @ feed_bytes (feed_point c h 8)\<rparr>)"
proof -
  define w1 where "w1 = w\<lparr>out := out w @ band_command h\<rparr>"
  define w2 where "w2 = w1\<lparr>out := out w1 @ band_payload h p off lines (uninit_i w)\<rparr>"
  have s1: "script w1 = []" and u1: "uninit_i w1 = uninit_i w" using assms by (simp_all add: w1_def)
  have s2: "script w2 = []" using s1 by (simp add: w2_def)
  have a: "WriteData [ESC, 0x2A, 1, of_nat (cupsWidth h mod 256),
                      of_nat ((cupsWidth h div 256) mod 256)] w = (EPTMD_SUCCESS, w1)"
    using WriteData_good[OF assms] by (simp add: w1_def band_command_def)
  have b: "WriteData (AvoidDisturbingData h (make_send_data h p off lines) 0 8 (uninit_i w)) w1
         = (EPTMD_SUCCESS, w2)"
    using WriteData_good[OF s1] by (simp add: w2_def band_payload_def)
  have c: "FeedPaper c h 8 w2 = (EPTMD_SUCCESS, w2\<lparr>out := out w2 @ feed_bytes (feed_point c h 8)\<rparr>)"
    by (rule FeedPaper_good[OF s2])
  have d: "w2\<lparr>out := out w2 @ feed_bytes (feed_point c h 8)\<rparr>
      = w\<lparr>out := out w @ band_command h @ band_payload h p off lines (uninit_i w)
                              @ feed_bytes (feed_point c h 8)\<rparr>"
    by (simp add: w2_def w1_def)
  show ?thesis
    unfolding d[symmetric] by (simp add: WriteBand_def a b c u1)
qed

text \<open>
  C10. On a sink that accepts every write, \<open>WriteBand\<close> emits the band header, the
  payload of \<open>cupsBytesPerLine * 8\<close> bytes and then the feed for 8 scanlines, whatever
  the number of scanlines of the band: a partial band of fewer than 8 lines advances the
  paper by the distance of 8 lines.
\<close>

theorem WriteBand_feeds_eight_lines:
  assumes "script w = []" and "0 < HWResolution1 h"
  shows "WriteBand c h p off lines w =
     (EPTMD_SUCCESS, w\<lparr>out := out w @ band_command h @ band_payload h p off lines (uninit_i w)
                              @ feed_bytes (feed_point c h 8)\<rparr>)
     \<and> length (band_payload h p off lines (uninit_i w)) = cupsBytesPerLine h * 8
     \<and> feed_total (feed_bytes (feed_point c h 8)) = ((8 * v_motionUnit c) mod 2 ^ 32) div HWResolution1 h"
proof -
  have "length (band_payload h p off lines (uninit_i w)) = cupsBytesPerLine h * 8"
  proof -
    have l: "length (make_send_data h p off lines) = 8 * cupsBytesPerLine h"
      unfolding make_send_data_def by (simp add: concat_rows_length)
    show ?thesis
      unfolding band_payload_def AvoidDisturbingData_def
      by (simp add: l AvoidDisturbingData_loop_length)
  qed
  then show ?thesis
    using WriteBand_good[OF assms(1)] by (simp add: feed_total_feed_bytes feed_point_div)
qed

theorem WriteBand_feeds_eight_lines_witness:
  "script quiet_world = [] \<and> 0 < HWResolution1 (slip_header 16 3 2 60)
   \<and> out (snd (WriteBand (slip_config 30 TmPaperReductionOff) (slip_header 16 3 2 60)
                  [0xFF, 0, 0, 0, 0, 0x01] 0 3 quiet_world))
       = [ESC, 0x2A, 1, 16, 0] @ replicate 8 0x80 @ replicate 7 0 @ [0x20] @ [ESC, 0x4A, 4]
   \<and> feed_point (slip_config 30 TmPaperReductionOff) (slip_header 16 3 2 60) 3 = 1"
proof -
  have s: "script quiet_world = []" by (simp add: quiet_world_def)
  have r: "0 < HWResolution1 (slip_header 16 3 2 60)" by (simp add: slip_header_def)
  have u: "uninit_i quiet_world = 0" and o: "out quiet_world = []" by (simp_all add: quiet_world_def)
  have f8: "feed_point (slip_config 30 TmPaperReductionOff) (slip_header 16 3 2 60) 8 = 4"
    by (simp add: feed_point_div slip_config_def slip_header_def)
  have f3: "feed_point (slip_config 30 TmPaperReductionOff) (slip_header 16 3 2 60) 3 = 1"
    by (simp add: feed_point_div slip_config_def slip_header_def)
  have cmd: "band_command (slip_header 16 3 2 60) = [ESC, 0x2A, 1, 16, 0]"
    by (simp add: band_command_def slip_header_def)
  have msd: "make_send_data (slip_header 16 3 2 60) [0xFF, 0, 0, 0, 0, 0x01] 0 3
      = [0x80, 0x80, 0x80, 0x80, 0x80, 0x80, 0x80, 0x80, 0, 0, 0, 0, 0, 0, 0, 0x20]"
    by code_simp
  have rep: "replicate 8 0x80 @ replicate 7 0 @ [0x20]
      = [0x80, 0x80, 0x80, 0x80, 0x80, 0x80, 0x80, 0x80, 0, 0, 0, 0, 0, 0, 0, 0x20 :: byte]"
    by code_simp
  have pay: "band_payload (slip_header 16 3 2 60) [0xFF, 0, 0, 0, 0, 0x01] 0 3 0
      = replicate 8 0x80 @ replicate 7 0 @ [0x20]"
    unfolding band_payload_def msd rep
    unfolding AvoidDisturbingData_def Let_def slip_header_def
    by (simp add: AvoidDisturbingData_loop.simps)
  have fb: "feed_bytes 4 = [ESC, 0x4A, 4]" by (simp add: feed_bytes_def feed_command_def)
  show ?thesis
    using s r f3
      WriteBand_feeds_eight_lines[OF s r, of "slip_config 30 TmPaperReductionOff" "[0xFF, 0, 0, 0, 0, 0x01]" 0 3,
        THEN conjunct1]
    by (simp add: u o f8 cmd pay fb)
qed

text \<open>
  Started at index 0, the loop of \<open>AvoidDisturbingData\<close> rewrites the buffer as the
  specification says: the length is kept and every position holds \<open>sanitized_byte\<close>.
\<close>

lemma AvoidDisturbingData_initialised:
  assumes "length p = 8 * cupsBytesPerLine h" "length p < 2 ^ 64"
  shows "length (AvoidDisturbingData h p 0 8 0) = length p
     \<and> (\<forall>j < length p. AvoidDisturbingData h p 0 8 0 ! j = sanitized_byte p j)"
  using AvoidDisturbingData_loop_spec[of p 0] assms
  by (simp add: AvoidDisturbingData_def mult.commute)

lemma AvoidDisturbingData_wraps:
  assumes "length p = 8 * cupsBytesPerLine h" "length p < 2 ^ 64"
  shows "AvoidDisturbingData h p 0 8 (2 ^ 64 - 1) = AvoidDisturbingData h p 0 8 0"
  using AvoidDisturbingData_loop_wraps[of p] assms
  by (simp add: AvoidDisturbingData_def mult.commute)

text \<open>
  C3. The source never initialises the loop index \<open>i\<close>. With \<open>i = 1\<close> on entry the
  pair \<open>0x10, 0x04\<close> at the start of the buffer is left as it is, with \<open>i = 7\<close> nothing
  is rewritten, and with \<open>i = 0\<close> both pairs are rewritten; with \<open>i = 1\<close>
  \<open>WriteBand\<close> sends the payload \<open>0x10, 0x04\<close> to the printer.
\<close>

theorem AvoidDisturbingData_uninitialised_index:
  "AvoidDisturbingData (slip_header 8 8 1 203) [0x10, 0x04, 0x1B, 0x3D, 0x10, 0x06, 0, 0] 0 8 1
     = [0x10, 0x04, 0x3B, 0x3D, 0x10, 0x06, 0, 0]
   \<and> AvoidDisturbingData (slip_header 8 8 1 203) [0x10, 0x04, 0x1B, 0x3D, 0x10, 0x06, 0, 0] 0 8 7
     = [0x10, 0x04, 0x1B, 0x3D, 0x10, 0x06, 0, 0]
   \<and> AvoidDisturbingData (slip_header 8 8 1 203) [0x10, 0x04, 0x1B, 0x3D, 0x10, 0x06, 0, 0] 0 8 0
     = [0x30, 0x04, 0x3B, 0x3D, 0x10, 0x06, 0, 0]
   \<and> out (snd (WriteBand (slip_config 30 TmPaperReductionOff) (slip_header 8 8 1 60) dle_eot_page 0 8
                  (quiet_world\<lparr>uninit_i := 1\<rparr>)))
     = [ESC, 0x2A, 1, 8, 0] @ [0x10, 0x04, 0, 0, 0, 0, 0, 0] @ [ESC, 0x4A, 4]"
proof -
  have a: "AvoidDisturbingData (slip_header 8 8 1 203) [0x10, 0x04, 0x1B, 0x3D, 0x10, 0x06, 0, 0] 0 8 1
     = [0x10, 0x04, 0x3B, 0x3D, 0x10, 0x06, 0, 0]"
    unfolding AvoidDisturbingData_def Let_def slip_header_def
    by (simp add: AvoidDisturbingData_loop.simps)
  have b: "AvoidDisturbingData (slip_header 8 8 1 203) [0x10, 0x04, 0x1B, 0x3D, 0x10, 0x06, 0, 0] 0 8 7
     = [0x10, 0x04, 0x1B, 0x3D, 0x10, 0x06, 0, 0]"
    unfolding AvoidDisturbingData_def Let_def slip_header_def
    by (simp add: AvoidDisturbingData_loop.simps)
  have c: "AvoidDisturbingData (slip_header 8 8 1 203) [0x10, 0x04, 0x1B, 0x3D, 0x10, 0x06, 0, 0] 0 8 0
     = [0x30, 0x04, 0x3B, 0x3D, 0x10, 0x06, 0, 0]"
    unfolding AvoidDisturbingData_def Let_def slip_header_def
    by (simp add: AvoidDisturbingData_loop.simps)
  have s: "script (quiet_world\<lparr>uninit_i := 1\<rparr>) = []" by (simp add: quiet_world_def)
  have f8: "feed_point (slip_config 30 TmPaperReductionOff) (slip_header 8 8 1 60) 8 = 4"
    by (simp add: feed_point_div slip_config_def slip_header_def)
  have cmd: "band_command (slip_header 8 8 1 60) = [ESC, 0x2A, 1, 8, 0]"
    by (simp add: band_command_def slip_header_def)
  have msd: "make_send_data (slip_header 8 8 1 60) dle_eot_page 0 8 = [0x10, 0x04, 0, 0, 0, 0, 0, 0]"
    by code_simp
  have pay: "band_payload (slip_header 8 8 1 60) dle_eot_page 0 8 1 = [0x10, 0x04, 0, 0, 0, 0, 0, 0]"
    unfolding band_payload_def msd
    unfolding AvoidDisturbingData_def Let_def slip_header_def
    by (simp add: AvoidDisturbingData_loop.simps)
  have fb: "feed_bytes 4 = [ESC, 0x4A, 4]" by (simp add: feed_bytes_def feed_command_def)
  have d: "out (snd (WriteBand (slip_config 30 TmPaperReductionOff) (slip_header 8 8 1 60) dle_eot_page 0 8
                  (quiet_world\<lparr>uninit_i := 1\<rparr>)))
     = band_command (slip_header 8 8 1 60) @ band_payload (slip_header 8 8 1 60) dle_eot_page 0 8 1
        @ feed_bytes (feed_point (slip_config 30 TmPaperReductionOff) (slip_header 8 8 1 60) 8)"
    unfolding WriteBand_good[OF s] by (simp add: quiet_world_def)
  show ?thesis unfolding d f8 cmd pay fb using a b c by simp
qed

section \<open>Pages on a sink that accepts everything\<close>

declare raster_bands.simps [simp del] WriteRaster_loop.simps [simp del]
  WriteUserFile_loop.simps [simp del] ReadRaster_loop.simps [simp del]

lemma WriteBand_good':
  assumes "script w = []"
  shows "WriteBand c h p off lines w =
     (EPTMD_SUCCESS, w\<lparr>out := out w @ band_bytes c h p off lines (uninit_i w)\<rparr>)"
  unfolding band_bytes_def by (rule WriteBand_good[OF assms])

lemma WriteRaster_loop_good:
  assumes "script w = []" "\<not> g_TmCanceled w"
  shows "\<exists>ln w'. WriteRaster_loop c h p lst ln0 w = (None, ln, w')
           \<and> (if ln < lst then WriteBand c h p (cupsBytesPerLine h * ln) (lst - ln) w'
               else (EPTMD_SUCCESS, w'))
             = (EPTMD_SUCCESS, w\<lparr>out := out w @ raster_bands c h p lst ln0 (uninit_i w)\<rparr>)"
  using assms
proof (induction c h p lst ln0 w rule: WriteRaster_loop.induct)
  case (1 c h p lst ln0 w)
  show ?case
  proof (cases "(ln0 + maxBandLines c) < lst \<and> 0 < maxBandLines c")
    case False
    have a: "WriteRaster_loop c h p lst ln0 w = (None, ln0, w)"
      using False by (subst WriteRaster_loop.simps) auto
    have b: "raster_bands c h p lst ln0 (uninit_i w)
        = (if ln0 < lst then band_bytes c h p (cupsBytesPerLine h * ln0) (lst - ln0) (uninit_i w) else [])"
      using False by (subst raster_bands.simps) auto
    show ?thesis unfolding a b using WriteBand_good'[OF 1(2)] by simp
  next
    case True
    define w1 where "w1 = w\<lparr>out := out w @ band_bytes c h p (cupsBytesPerLine h * ln0) (maxBandLines c) (uninit_i w)\<rparr>"
    have wb: "WriteBand c h p (cupsBytesPerLine h * ln0) (maxBandLines c) w = (EPTMD_SUCCESS, w1)"
      unfolding w1_def by (rule WriteBand_good'[OF 1(2)])
    have s1: "script w1 = []" "\<not> g_TmCanceled w1" "uninit_i w1 = uninit_i w"
      using 1(2,3) by (simp_all add: w1_def)
    have a: "WriteRaster_loop c h p lst ln0 w = WriteRaster_loop c h p lst (ln0 + maxBandLines c) w1"
      using True by (subst WriteRaster_loop.simps) (simp add: wb s1)
    have b: "raster_bands c h p lst ln0 (uninit_i w)
        = band_bytes c h p (cupsBytesPerLine h * ln0) (maxBandLines c) (uninit_i w)
          @ raster_bands c h p lst (ln0 + maxBandLines c) (uninit_i w)"
      using True by (subst raster_bands.simps) simp
    obtain ln w' where ih: "WriteRaster_loop c h p lst (ln0 + maxBandLines c) w1 = (None, ln, w')"
      "(if ln < lst then WriteBand c h p (cupsBytesPerLine h * ln) (lst - ln) w'
               else (EPTMD_SUCCESS, w'))
             = (EPTMD_SUCCESS, w1\<lparr>out := out w1 @ raster_bands c h p lst (ln0 + maxBandLines c) (uninit_i w1)\<rparr>)"
      using 1(1)[OF True wb[symmetric]] s1 by auto
    have c: "w1\<lparr>out := out w1 @ raster_bands c h p lst (ln0 + maxBandLines c) (uninit_i w1)\<rparr>
        = w\<lparr>out := out w @ raster_bands c h p lst ln0 (uninit_i w)\<rparr>"
      unfolding b by (simp add: w1_def)
    show ?thesis unfolding a using ih c by auto
  qed
qed

lemma WriteRaster_blank_good:
  assumes "script w = []" "FindBlackRasterLineTop h p = cupsHeight h"
  shows "WriteRaster c h p w =
     (EPTMD_SUCCESS,
      w\<lparr>out := out w @ (if paperReduction c = TmPaperReductionOff
                          then feed_bytes (feed_point c h (cupsHeight h)) else [])\<rparr>)"
  using assms(2) FeedPaper_good[OF assms(1), of c h "cupsHeight h"]
  by (auto simp: WriteRaster_def)

lemma WriteRaster_tail_good:
  assumes "script w1 = []" "\<not> g_TmCanceled w1"
  shows "(case WriteRaster_loop c h p lst tp w1 of
            (Some r, line_no, w2) \<Rightarrow> (r, w2)
          | (None, line_no, w2) \<Rightarrow>
              (case (if line_no < lst
                     then WriteBand c h p (cupsBytesPerLine h * line_no) (lst - line_no) w2
                     else (EPTMD_SUCCESS, w2)) of
                 (result, w3) \<Rightarrow> if EPTMD_SUCCESS \<noteq> result then (3404, w3) else K w3))
       = K (w1\<lparr>out := out w1 @ raster_bands c h p lst tp (uninit_i w1)\<rparr>)"
proof -
  obtain ln w2 where b: "WriteRaster_loop c h p lst tp w1 = (None, ln, w2)"
      "(if ln < lst then WriteBand c h p (cupsBytesPerLine h * ln) (lst - ln) w2
               else (EPTMD_SUCCESS, w2))
        = (EPTMD_SUCCESS, w1\<lparr>out := out w1 @ raster_bands c h p lst tp (uninit_i w1)\<rparr>)"
    using WriteRaster_loop_good[OF assms, of c h p lst tp] by blast
  show ?thesis unfolding b(1) by (simp only: prod.case option.case b(2)) simp
qed

lemma WriteRaster_good:
  assumes "script w = []" "\<not> g_TmCanceled w" "FindBlackRasterLineTop h p \<noteq> cupsHeight h"
  shows "WriteRaster c h p w =
     (EPTMD_SUCCESS,
      w\<lparr>out := out w
         @ (if paperReduction c = TmPaperReductionOff \<or> paperReduction c = TmPaperReductionBottom
            then feed_bytes (feed_point c h (FindBlackRasterLineTop h p)) else [])
         @ raster_bands c h p (FindBlackRasterLineEnd h p + 1) (FindBlackRasterLineTop h p) (uninit_i w)
         @ (if paperReduction c = TmPaperReductionOff \<or> paperReduction c = TmPaperReductionTop
            then feed_bytes (feed_point c h (cupsHeight h - (FindBlackRasterLineEnd h p + 1))) else [])\<rparr>)"
proof -
  have ne: "cupsHeight h \<noteq> FindBlackRasterLineTop h p" using assms(3) by simp
  show ?thesis
    using assms(1,2) ne
    by (cases "paperReduction c")
       (simp_all add: WriteRaster_def Let_def FeedPaper_good WriteRaster_tail_good)
qed

lemma feed_point_mode: "feed_point (c\<lparr>paperReduction := m\<rparr>) h n = feed_point c h n"
  by (simp add: feed_point_def feed_correction_def)

lemma band_bytes_mode: "band_bytes (c\<lparr>paperReduction := m\<rparr>) h p off lines i0 = band_bytes c h p off lines i0"
  by (simp add: band_bytes_def feed_point_mode)

lemma raster_bands_mode:
  "raster_bands (c\<lparr>paperReduction := m\<rparr>) h p lst l0 i0 = raster_bands c h p lst l0 i0"
proof (induction c h p lst l0 i0 rule: raster_bands.induct)
  case (1 c h p lst l0 i0)
  show ?case
  proof (cases "(l0 + maxBandLines c) < lst \<and> 0 < maxBandLines c")
    case True
    then show ?thesis
      using 1[OF True]
      by (subst raster_bands.simps, subst (2) raster_bands.simps) (simp add: band_bytes_mode)
  next
    case False
    then show ?thesis
      by (subst raster_bands.simps, subst (2) raster_bands.simps) (auto simp: band_bytes_mode)
  qed
qed

lemma single_pixel_bands:
  "raster_bands (slip_config 203 TmPaperReductionOff) (slip_header 16 8 2 203) single_pixel_page 6 5 0
     = band_bytes (slip_config 203 TmPaperReductionOff) (slip_header 16 8 2 203) single_pixel_page 10 1 0"
  by (subst raster_bands.simps) (simp add: slip_config_def slip_header_def)

text \<open>
  C6. For a page that is not blank (sink accepting, no cancellation), \<open>WriteRaster\<close>
  writes the feed for the \<open>top\<close> scanlines of the top margin exactly in the modes Off and
  Bottom, then the bands, which do not depend on the mode, then the feed for the
  \<open>cupsHeight - (bottom + 1)\<close> scanlines of the bottom margin exactly in the modes Off
  and Top; in the mode Both it writes the bands only.
\<close>

theorem margin_feeds_by_mode:
  assumes "script w = []" and "\<not> g_TmCanceled w"
    and "FindBlackRasterLineTop h p \<noteq> cupsHeight h"
    and "0 < HWResolution1 h"
  shows "WriteRaster (c\<lparr>paperReduction := mode\<rparr>) h p w =
     (EPTMD_SUCCESS,
      w\<lparr>out := out w
         @ (if mode = TmPaperReductionOff \<or> mode = TmPaperReductionBottom
            then feed_bytes (feed_point c h (FindBlackRasterLineTop h p)) else [])
         @ raster_bands c h p (FindBlackRasterLineEnd h p + 1) (FindBlackRasterLineTop h p) (uninit_i w)
         @ (if mode = TmPaperReductionOff \<or> mode = TmPaperReductionTop
            then feed_bytes (feed_point c h (cupsHeight h - (FindBlackRasterLineEnd h p + 1))) else [])\<rparr>)"
  using WriteRaster_good[OF assms(1,2,3), of "c\<lparr>paperReduction := mode\<rparr>"]
  by (simp add: feed_point_mode raster_bands_mode)

theorem margin_feeds_by_mode_witness:
  "script quiet_world = [] \<and> \<not> g_TmCanceled quiet_world
   \<and> FindBlackRasterLineTop (slip_header 16 8 2 203) single_pixel_page
        \<noteq> cupsHeight (slip_header 16 8 2 203)
   \<and> 0 < HWResolution1 (slip_header 16 8 2 203)
   \<and> out (snd (WriteRaster ((slip_config 203 TmPaperReductionOff)\<lparr>paperReduction := TmPaperReductionOff\<rparr>)
                  (slip_header 16 8 2 203) single_pixel_page quiet_world))
       = [ESC, 0x4A, 5]
         @ band_bytes (slip_config 203 TmPaperReductionOff) (slip_header 16 8 2 203) single_pixel_page 10 1 0
         @ [ESC, 0x4A, 2]
   \<and> out (snd (WriteRaster ((slip_config 203 TmPaperReductionOff)\<lparr>paperReduction := TmPaperReductionTop\<rparr>)
                  (slip_header 16 8 2 203) single_pixel_page quiet_world))
       = band_bytes (slip_config 203 TmPaperReductionOff) (slip_header 16 8 2 203) single_pixel_page 10 1 0
         @ [ESC, 0x4A, 2]
   \<and> out (snd (WriteRaster ((slip_config 203 TmPaperReductionOff)\<lparr>paperReduction := TmPaperReductionBottom\<rparr>)
                  (slip_header 16 8 2 203) single_pixel_page quiet_world))
       = [ESC, 0x4A, 5]
         @ band_bytes (slip_config 203 TmPaperReductionOff) (slip_header 16 8 2 203) single_pixel_page 10 1 0
   \<and> out (snd (WriteRaster ((slip_config 203 TmPaperReductionOff)\<lparr>paperReduction := TmPaperReductionBoth\<rparr>)
                  (slip_header 16 8 2 203) single_pixel_page quiet_world))
       = band_bytes (slip_config 203 TmPaperReductionOff) (slip_header 16 8 2 203) single_pixel_page 10 1 0"
proof -
  have s: "script quiet_world = []" and g: "\<not> g_TmCanceled quiet_world"
    and o: "out quiet_world = []" and u: "uninit_i quiet_world = 0"
    by (simp_all add: quiet_world_def)
  have hh: "cupsHeight (slip_header 16 8 2 203) = 8" by (simp add: slip_header_def)
  have t: "FindBlackRasterLineTop (slip_header 16 8 2 203) single_pixel_page
        \<noteq> cupsHeight (slip_header 16 8 2 203)"
    unfolding single_pixel_top hh by simp
  have r: "0 < HWResolution1 (slip_header 16 8 2 203)" by (simp add: slip_header_def)
  have f5: "feed_bytes (feed_point (slip_config 203 TmPaperReductionOff) (slip_header 16 8 2 203) 5)
      = [ESC, 0x4A, 5]"
    by (simp add: feed_point_div slip_config_def slip_header_def feed_bytes_def feed_command_def)
  have f2: "feed_bytes (feed_point (slip_config 203 TmPaperReductionOff) (slip_header 16 8 2 203) 2)
      = [ESC, 0x4A, 2]"
    by (simp add: feed_point_div slip_config_def slip_header_def feed_bytes_def feed_command_def)
  have e: "FindBlackRasterLineEnd (slip_header 16 8 2 203) single_pixel_page + 1 = 6"
    unfolding single_pixel_end by simp
  have d: "(8::nat) - 6 = 2" by simp
  note T = margin_feeds_by_mode[OF s g t r, where c = "slip_config 203 TmPaperReductionOff", unfolded single_pixel_top e hh d
      u single_pixel_bands f5 f2 o]
  show ?thesis
    using s g t r by (simp add: T)
qed

section \<open>Blank pages (C5)\<close>

lemma WriteUserFile_loop_good:
  assumes "script w = []"
  shows "WriteUserFile_loop content False w = (None, w\<lparr>out := out w @ content\<rparr>)"
  using assms
proof (induction "length content" arbitrary: content w rule: less_induct)
  case less
  show ?case
  proof (cases "content = []")
    case True
    then show ?thesis
      by (subst WriteUserFile_loop.simps) (simp add: ReadUserFile_def)
  next
    case False
    show ?thesis
    proof (cases "1024 \<le> length content")
      case True
      define w1 where "w1 = w\<lparr>out := out w @ take 1024 content\<rparr>"
      have s1: "script w1 = []" using less(2) by (simp add: w1_def)
      have wd: "WriteData (take 1024 content) w = (EPTMD_SUCCESS, w1)"
        unfolding w1_def by (rule WriteData_good[OF less(2)])
      have lt: "length (drop 1024 content) < length content" using True by simp
      have ih: "WriteUserFile_loop (drop 1024 content) False w1
          = (None, w1\<lparr>out := out w1 @ drop 1024 content\<rparr>)"
        by (rule less(1)[OF lt s1])
      have "WriteUserFile_loop content False w = WriteUserFile_loop (drop 1024 content) False w1"
        using True by (subst WriteUserFile_loop.simps) (simp add: ReadUserFile_def wd)
      then show ?thesis unfolding ih by (simp add: w1_def)
    next
      case short: False
      define w1 where "w1 = w\<lparr>out := out w @ content\<rparr>"
      have s1: "script w1 = []" using less(2) by (simp add: w1_def)
      have wd: "WriteData content w = (EPTMD_SUCCESS, w1)"
        unfolding w1_def by (rule WriteData_good[OF less(2)])
      have stop: "WriteUserFile_loop [] False w1 = (None, w1)"
        by (subst WriteUserFile_loop.simps) (simp add: ReadUserFile_def)
      have "WriteUserFile_loop content False w = WriteUserFile_loop [] False w1"
        using short False by (subst WriteUserFile_loop.simps) (simp add: ReadUserFile_def wd)
      then show ?thesis unfolding stop by (simp add: w1_def)
    qed
  qed
qed

lemma WriteUserFile_good:
  assumes "script w = []" "ufile_ok (userfile w name)"
  shows "WriteUserFile name w = (EPTMD_SUCCESS, w\<lparr>out := out w @ ufile_bytes (userfile w name)\<rparr>)"
  using assms(2)
  by (cases "userfile w name")
     (simp_all add: WriteUserFile_def ufile_ok_def ufile_bytes_def WriteUserFile_loop_good[OF assms(1)])

lemma StartPage_good:
  assumes "script w = []" "ufile_ok (userfile w ''StartPage.prn'')"
  shows "StartPage c w =
     (EPTMD_SUCCESS, w\<lparr>out := out w @ [GS, 0x28, 0x47, 2, 0, 84, 1]
                               @ ufile_bytes (userfile w ''StartPage.prn'')\<rparr>)"
  using assms by (simp add: StartPage_def WriteData_good WriteUserFile_good)

lemma EndPage_good:
  assumes "script w = []" "\<not> g_TmCanceled w" "ufile_ok (userfile w ''EndPage.prn'')"
  shows "EndPage c h w =
     (EPTMD_SUCCESS, w\<lparr>out := out w @ ufile_bytes (userfile w ''EndPage.prn'')
                               @ [ESC, 0x46, 0, FF]\<rparr>)"
  using assms by (simp add: EndPage_def WriteData_good WriteUserFile_good)

lemma ReadRaster_loop_good:
  assumes "\<not> g_TmCanceled w"
    and "length pre = cupsBytesPerLine h * i"
    and "i + length rows = cupsHeight h"
    and "\<forall>r \<in> set rows. \<not> fst r \<and> length (snd r) = cupsBytesPerLine h"
    and "length post = length rows * cupsBytesPerLine h"
  shows "ReadRaster_loop h i rows (pre @ post) w = (EPTMD_SUCCESS, pre @ concat (map snd rows), w)"
  using assms
proof (induction rows arbitrary: i pre post)
  case Nil
  then show ?case by (subst ReadRaster_loop.simps) simp
next
  case (Cons r rows)
  have lt: "i < cupsHeight h" using Cons(4) by simp
  have r: "\<not> fst r" "length (snd r) = cupsBytesPerLine h" using Cons(5) by simp_all
  have tr: "TransferRaster (pre @ post) (snd r) h i = (pre @ snd r) @ drop (cupsBytesPerLine h) post"
    using Cons(3) r(2) by (simp add: TransferRaster_def Let_def)
  have ih: "ReadRaster_loop h (i + 1) rows ((pre @ snd r) @ drop (cupsBytesPerLine h) post) w
      = (EPTMD_SUCCESS, (pre @ snd r) @ concat (map snd rows), w)"
    using Cons(1)[of "pre @ snd r" "i + 1" "drop (cupsBytesPerLine h) post"] Cons(2-6) r
    by (simp add: algebra_simps)
  have same: "w\<lparr>g_TmCanceled := False\<rparr> = w" using Cons(2) by simp
  show ?case
    apply (subst ReadRaster_loop.simps)
    using lt Cons(2) r ih by (simp add: Let_def tr same)
qed

lemma ReadRaster_good:
  assumes "\<not> g_TmCanceled w"
    and "length rows = cupsHeight h"
    and "\<forall>r \<in> set rows. \<not> fst r \<and> length (snd r) = cupsBytesPerLine h"
    and "length buf = cupsHeight h * cupsBytesPerLine h"
  shows "ReadRaster h rows buf w = (EPTMD_SUCCESS, concat (map snd rows), w)"
  using ReadRaster_loop_good[OF assms(1), of "[]" h 0 rows buf] assms(2-4)
  by (simp add: ReadRaster_def)

lemma Top_of_blank:
  assumes "\<forall>y < cupsHeight h. \<not> scanline_nonzero buf (cupsBytesPerLine h) y"
  shows "FindBlackRasterLineTop h buf = cupsHeight h"
proof -
  define t where "t = FindBlackRasterLineTop h buf"
  have t: "t = FindBlackRasterLineTop_loop h buf 0 (int (cupsBytesPerLine h * 0))"
    by (simp add: t_def FindBlackRasterLineTop_def)
  have "t \<le> cupsHeight h \<and> (t < cupsHeight h \<longrightarrow> scanline_nonzero buf (cupsBytesPerLine h) t)"
    using Top_loop_spec[OF _ t] by simp
  then have "t = cupsHeight h" using assms by (auto simp: order.order_iff_strict)
  then show ?thesis by (simp add: t_def)
qed

lemma zero_page_blank:
  "\<forall>y < hgt. \<not> scanline_nonzero (replicate (hgt * bpl) 0) bpl y"
proof (intro allI impI)
  fix y assume y: "y < hgt"
  have "y * bpl + x < hgt * bpl" if "x < bpl" for x
  proof -
    have "y * bpl + x < y * bpl + bpl" using that by simp
    also have "\<dots> = Suc y * bpl" by simp
    also have "\<dots> \<le> hgt * bpl" using y by (intro mult_le_mono1) simp
    finally show ?thesis .
  qed
  then show "\<not> scanline_nonzero (replicate (hgt * bpl) 0) bpl y"
    by (simp add: scanline_nonzero_def)
qed

lemma zero_rows_concat:
  assumes "\<forall>r \<in> set rows. snd r = replicate bpl (0 :: byte)"
  shows "concat (map snd rows) = replicate (length rows * bpl) 0"
  using assms by (induction rows) (simp_all add: replicate_add)

lemma DoPage_blank_good:
  assumes "script w = []" and "\<not> g_TmCanceled w"
    and "ufile_ok (userfile w ''StartPage.prn'')" and "ufile_ok (userfile w ''EndPage.prn'')"
    and "length rows = cupsHeight h"
    and "\<forall>r \<in> set rows. \<not> fst r \<and> snd r = replicate (cupsBytesPerLine h) 0"
    and "length buf = cupsHeight h * cupsBytesPerLine h"
  shows "DoPage c h rows buf w =
       (EPTMD_SUCCESS, replicate (cupsHeight h * cupsBytesPerLine h) 0,
        w\<lparr>out := out w @ [GS, 0x28, 0x47, 2, 0, 84, 1] @ ufile_bytes (userfile w ''StartPage.prn'')
               @ (if paperReduction c = TmPaperReductionOff
                  then feed_bytes (feed_point c h (cupsHeight h)) else [])
               @ ufile_bytes (userfile w ''EndPage.prn'') @ [ESC, 0x46, 0, FF]\<rparr>)"
proof -
  define zs where "zs = replicate (cupsHeight h * cupsBytesPerLine h) (0 :: byte)"
  define w1 where "w1 = w\<lparr>out := out w @ [GS, 0x28, 0x47, 2, 0, 84, 1]
                               @ ufile_bytes (userfile w ''StartPage.prn'')\<rparr>"
  define w3 where "w3 = w1\<lparr>out := out w1 @ (if paperReduction c = TmPaperReductionOff
                          then feed_bytes (feed_point c h (cupsHeight h)) else [])\<rparr>"
  have f1: "script w1 = []" "\<not> g_TmCanceled w1" "userfile w1 = userfile w"
    using assms(1,2) by (simp_all add: w1_def)
  have f3: "script w3 = []" "\<not> g_TmCanceled w3" "userfile w3 = userfile w"
    using f1 by (simp_all add: w3_def)
  have a: "StartPage c w = (EPTMD_SUCCESS, w1)"
    unfolding w1_def by (rule StartPage_good[OF assms(1,3)])
  have rows: "\<forall>r \<in> set rows. \<not> fst r \<and> length (snd r) = cupsBytesPerLine h"
    using assms(6) by simp
  have cat: "concat (map snd rows) = zs"
    using zero_rows_concat[of rows "cupsBytesPerLine h"] assms(5,6) by (simp add: zs_def)
  have b: "ReadRaster h rows buf w1 = (EPTMD_SUCCESS, zs, w1)"
    using ReadRaster_good[OF f1(2) assms(5) rows assms(7)] cat by simp
  have top: "FindBlackRasterLineTop h zs = cupsHeight h"
    unfolding zs_def by (rule Top_of_blank[OF zero_page_blank])
  have c: "WriteRaster c h zs w1 = (EPTMD_SUCCESS, w3)"
    unfolding w3_def by (rule WriteRaster_blank_good[OF f1(1) top])
  have d: "EndPage c h w3 = (EPTMD_SUCCESS, w3\<lparr>out := out w3 @ ufile_bytes (userfile w ''EndPage.prn'')
                               @ [ESC, 0x46, 0, FF]\<rparr>)"
    using EndPage_good[OF f3(1,2), of c h] assms(4) f3(3) by simp
  show ?thesis
    unfolding DoPage_def a by (simp add: b c d zs_def[symmetric]) (simp add: w3_def w1_def)
qed

lemma blank_example_facts:
  "script quiet_world = []" "\<not> g_TmCanceled quiet_world"
  "ufile_ok (userfile quiet_world ''StartPage.prn'')" "ufile_ok (userfile quiet_world ''EndPage.prn'')"
  "length blank_rows = cupsHeight (slip_header 16 8 2 203)"
  "\<forall>r \<in> set blank_rows. \<not> fst r \<and> snd r = replicate (cupsBytesPerLine (slip_header 16 8 2 203)) 0"
  "length (replicate 16 (0::byte)) = cupsHeight (slip_header 16 8 2 203) * cupsBytesPerLine (slip_header 16 8 2 203)"
  "0 < HWResolution1 (slip_header 16 8 2 203)"
  by (simp_all add: quiet_world_def ufile_ok_def blank_rows_def slip_header_def numeral_2_eq_2)

lemma blank_example_feed:
  "feed_bytes (feed_point (slip_config 203 m) (slip_header 16 8 2 203)
      (cupsHeight (slip_header 16 8 2 203))) = [ESC, 0x4A, 8]"
  by (simp add: feed_point_div slip_config_def slip_header_def feed_bytes_def feed_command_def)

text \<open>
  C5, as the code has it. For a page whose bitmap is all zero (sink accepting, no
  cancellation, user files sendable) \<open>WriteRaster\<close> writes no band; in the mode Off it
  writes what one \<open>FeedPaper\<close> call for the whole page height writes, in every other
  mode it writes nothing. The page as a whole is still framed by \<open>StartPage\<close> and
  \<open>EndPage\<close>: the command \<open>GS ( G 2 0 84 1\<close> and the file \<open>StartPage.prn\<close> before, the
  file \<open>EndPage.prn\<close> and \<open>ESC F 0 FF\<close> after.
\<close>

theorem blank_page_output:
  assumes "script w = []" and "\<not> g_TmCanceled w"
    and "ufile_ok (userfile w ''StartPage.prn'')" and "ufile_ok (userfile w ''EndPage.prn'')"
    and "length rows = cupsHeight h"
    and "\<forall>r \<in> set rows. \<not> fst r \<and> snd r = replicate (cupsBytesPerLine h) 0"
    and "length buf = cupsHeight h * cupsBytesPerLine h"
    and "0 < HWResolution1 h"
  shows "WriteRaster c h (replicate (cupsHeight h * cupsBytesPerLine h) 0) w =
       (EPTMD_SUCCESS,
        w\<lparr>out := out w @ (if paperReduction c = TmPaperReductionOff
                            then feed_bytes (feed_point c h (cupsHeight h)) else [])\<rparr>)
     \<and> DoPage c h rows buf w =
       (EPTMD_SUCCESS, replicate (cupsHeight h * cupsBytesPerLine h) 0,
        w\<lparr>out := out w @ [GS, 0x28, 0x47, 2, 0, 84, 1] @ ufile_bytes (userfile w ''StartPage.prn'')
               @ (if paperReduction c = TmPaperReductionOff
                  then feed_bytes (feed_point c h (cupsHeight h)) else [])
               @ ufile_bytes (userfile w ''EndPage.prn'') @ [ESC, 0x46, 0, FF]\<rparr>)"
proof -
  have top: "FindBlackRasterLineTop h (replicate (cupsHeight h * cupsBytesPerLine h) 0) = cupsHeight h"
    by (rule Top_of_blank[OF zero_page_blank])
  show ?thesis
    using WriteRaster_blank_good[OF assms(1) top, of c] DoPage_blank_good[OF assms(1-7), of c]
    by simp
qed

theorem blank_page_output_witness:
  "script quiet_world = [] \<and> \<not> g_TmCanceled quiet_world
   \<and> ufile_ok (userfile quiet_world ''StartPage.prn'') \<and> ufile_ok (userfile quiet_world ''EndPage.prn'')
   \<and> length blank_rows = cupsHeight (slip_header 16 8 2 203)
   \<and> list_all (\<lambda>r. \<not> fst r \<and> snd r = replicate (cupsBytesPerLine (slip_header 16 8 2 203)) 0)
        blank_rows
   \<and> length (replicate 16 (0::byte))
        = cupsHeight (slip_header 16 8 2 203) * cupsBytesPerLine (slip_header 16 8 2 203)
   \<and> 0 < HWResolution1 (slip_header 16 8 2 203)
   \<and> out (snd (snd (DoPage (slip_config 203 TmPaperReductionOff) (slip_header 16 8 2 203)
                       blank_rows (replicate 16 0) quiet_world)))
       = [GS, 0x28, 0x47, 2, 0, 84, 1, ESC, 0x4A, 8, ESC, 0x46, 0, FF]
   \<and> out (snd (snd (DoPage (slip_config 203 TmPaperReductionTop) (slip_header 16 8 2 203)
                       blank_rows (replicate 16 0) quiet_world)))
       = [GS, 0x28, 0x47, 2, 0, 84, 1, ESC, 0x46, 0, FF]"
proof -
  have m: "paperReduction (slip_config 203 m) = m" for m by (simp add: slip_config_def)
  have q: "out quiet_world = []" "userfile quiet_world n = NoEnt" for n
    by (simp_all add: quiet_world_def)
  have u: "ufile_bytes NoEnt = []" by (simp add: ufile_bytes_def)
  note T = blank_page_output[OF blank_example_facts, THEN conjunct2, unfolded q u]
  show ?thesis
    using blank_example_facts by (simp add: T m blank_example_feed list_all_iff)
qed

text \<open>
  C5, as stated, fails: in the mode Both a blank page does not pass without output;
  \<open>DoPage\<close> writes the start-of-page command and the page eject.
\<close>

theorem blank_page_still_emits_counterexample:
  "paperReduction (slip_config 203 TmPaperReductionBoth) \<noteq> TmPaperReductionOff
   \<and> out (snd (snd (DoPage (slip_config 203 TmPaperReductionBoth) (slip_header 16 8 2 203)
                       blank_rows (replicate 16 0) quiet_world)))
       = [GS, 0x28, 0x47, 2, 0, 84, 1, ESC, 0x46, 0, FF]"
proof -
  have m: "paperReduction (slip_config 203 m) = m" for m by (simp add: slip_config_def)
  have q: "out quiet_world = []" "userfile quiet_world n = NoEnt" for n
    by (simp_all add: quiet_world_def)
  have u: "ufile_bytes NoEnt = []" by (simp add: ufile_bytes_def)
  note T = DoPage_blank_good[OF blank_example_facts(1-7), unfolded q u]
  show ?thesis by (simp add: T m)
qed

section \<open>A sink with a script\<close>

text \<open>
  \<open>WriteData\<close> on a scripted sink: a \<open>write\<close> that accepts the whole buffer, a \<open>write\<close>
  that fails with an error other than \<open>EINTR\<close> at any point of the buffer, also after a
  partial \<open>write\<close>. \<open>WriteData_EINTR_at_start\<close> records what the loop does on \<open>EINTR\<close>
  before anything is written: the \<open>continue\<close> adds \<open>-1\<close> to \<open>count\<close>, the loop ends and the
  call fails.
\<close>

lemma WriteData_scripted:
  assumes "script w = (sig, Wr n) # rest" "p \<noteq> []" "length p \<le> n"
  shows "WriteData p w =
     (EPTMD_SUCCESS, w\<lparr>out := out w @ p, script := rest, g_TmCanceled := (g_TmCanceled w \<or> sig)\<rparr>)"
proof -
  have m: "min n (length p) = length p" using assms(3) by simp
  have a: "WriteData_loop p 0 w
      = WriteData_loop p (length p)
          (w\<lparr>script := rest, g_TmCanceled := (g_TmCanceled w \<or> sig), out := out w @ p\<rparr>)"
    using assms(1,2) by (subst WriteData_loop.simps) (simp add: m Let_def)
  have b: "WriteData_loop p (length p) w' = (EPTMD_SUCCESS, w')" for w'
    by (subst WriteData_loop.simps) simp
  show ?thesis unfolding WriteData_def a b by simp
qed

lemma WriteData_loop_error:
  assumes "count < length p" "script w = (sig, WrError) # rest"
  shows "WriteData_loop p count w
       = (- 1, w\<lparr>script := rest, g_TmCanceled := (g_TmCanceled w \<or> sig)\<rparr>)"
  using assms by (subst WriteData_loop.simps) simp

lemma WriteData_error:
  assumes "script w = (sig, WrError) # rest" "p \<noteq> []"
  shows "WriteData p w = (- 1, w\<lparr>script := rest, g_TmCanceled := (g_TmCanceled w \<or> sig)\<rparr>)"
  unfolding WriteData_def using assms by (intro WriteData_loop_error) simp_all

lemma WriteData_partial_then_error:
  assumes "script w = (s1, Wr n) # (sig, WrError) # rest" "0 < n" "n < length p"
  shows "WriteData p w
       = (- 1, w\<lparr>out := out w @ take n p, script := rest,
                  g_TmCanceled := (g_TmCanceled w \<or> s1 \<or> sig)\<rparr>)"
proof -
  define w1 where "w1 = w\<lparr>script := (sig, WrError) # rest, g_TmCanceled := (g_TmCanceled w \<or> s1),
                          out := out w @ take n p\<rparr>"
  have m: "min n (length p) = n" using assms(3) by simp
  have pn: "p \<noteq> []" using assms(3) by auto
  have a: "WriteData_loop p 0 w = WriteData_loop p n w1"
    using assms pn by (subst WriteData_loop.simps) (simp add: m Let_def w1_def)
  have s: "script w1 = (sig, WrError) # rest" by (simp add: w1_def)
  show ?thesis
    unfolding WriteData_def a WriteData_loop_error[OF assms(3) s]
    by (simp add: w1_def)
qed

lemma WriteData_EINTR_at_start:
  assumes "script w = (sig, WrEINTR) # rest" "p \<noteq> []" "length p < 2 ^ 32 - 1"
  shows "WriteData p w = (EPTMD_FAILED, w\<lparr>script := rest, g_TmCanceled := (g_TmCanceled w \<or> sig)\<rparr>)"
proof -
  have a: "WriteData_loop p 0 w
      = WriteData_loop p (2 ^ 32 - 1) (w\<lparr>script := rest, g_TmCanceled := (g_TmCanceled w \<or> sig)\<rparr>)"
    using assms(1,2) by (subst WriteData_loop.simps) simp
  have b: "WriteData_loop p (2 ^ 32 - 1) w' = (EPTMD_FAILED, w')" for w'
    using assms(3) by (subst WriteData_loop.simps) simp
  show ?thesis unfolding WriteData_def a b ..
qed

text \<open>The stages of a job on the scripted sink \<open>signal_world\<close>, which has no user files.\<close>

lemma WriteData_signal_world:
  assumes "p \<noteq> []" "length p \<le> n"
  shows "WriteData p (signal_world bs ((sig, Wr n) # rest) g)
       = (EPTMD_SUCCESS, signal_world (bs @ p) rest (g \<or> sig))"
  using WriteData_scripted[of "signal_world bs ((sig, Wr n) # rest) g" sig n rest p] assms
  by (simp add: signal_world_def)

lemma WriteData_signal_error:
  assumes "p \<noteq> []"
  shows "WriteData p (signal_world bs ((sig, WrError) # rest) g)
       = (- 1, signal_world bs rest (g \<or> sig))"
  using WriteData_error[of "signal_world bs ((sig, WrError) # rest) g" sig rest p] assms
  by (simp add: signal_world_def)

lemma signal_world_fields:
  "g_TmCanceled (signal_world b sc g) = g" "script (signal_world b sc g) = sc"
  "out (signal_world b sc g) = b" "uninit_i (signal_world b sc g) = 0"
  "userfile (signal_world b sc g) n = NoEnt"
  by (simp_all add: signal_world_def)

lemma signal_StartJob:
  "StartJob (slip_config 203 TmPaperReductionOff)
     (signal_world [] ((False, Wr 4096) # (False, Wr 4096) # (False, Wr 4096) # (False, Wr 4096)
                        # (False, Wr 4096) # rest) False)
     = (EPTMD_SUCCESS, signal_world job_prologue rest False)"
  by (simp add: StartJob_def WriteData_signal_world OpenDrawer_def SoundBuzzer_def
        WriteUserFile_def signal_world_fields slip_config_def job_prologue_def)

lemma signal_StartPage:
  "StartPage c (signal_world bs ((sig, Wr 4096) # rest) g)
     = (EPTMD_SUCCESS, signal_world (bs @ [GS, 0x28, 0x47, 2, 0, 84, 1]) rest (g \<or> sig))"
  by (simp add: StartPage_def WriteData_signal_world WriteUserFile_def signal_world_fields)

lemma signal_EndJob:
  "EndJob c (signal_world bs sc g) = (if g then EPTMD_CANCEL else EPTMD_SUCCESS, signal_world bs sc g)"
  by (simp add: EndJob_def WriteUserFile_def signal_world_fields)

lemma band_payload_length: "length (band_payload h p off lines i0) = cupsBytesPerLine h * 8"
proof -
  have l: "length (make_send_data h p off lines) = 8 * cupsBytesPerLine h"
    unfolding make_send_data_def by (simp add: concat_rows_length)
  show ?thesis
    unfolding band_payload_def AvoidDisturbingData_def
    by (simp add: l AvoidDisturbingData_loop_length)
qed

lemma signal_FeedPaper:
  assumes "0 < feed_point c h n" "feed_point c h n < 255"
  shows "FeedPaper c h n (signal_world b ((s, Wr 4096) # rest) g)
       = (EPTMD_SUCCESS, signal_world (b @ feed_bytes (feed_point c h n)) rest (g \<or> s))"
proof -
  define d where "d = feed_point c h n"
  have d: "0 < d" "d < 255" using assms by (simp_all add: d_def)
  have lp: "FeedPaper_loop d ww = (EPTMD_SUCCESS, d, ww)" for ww
    using d by (subst FeedPaper_loop.simps) simp
  have fb: "feed_bytes d = [ESC, 0x4A, of_nat d]"
    using d by (simp add: feed_bytes_def feed_command_def)
  show ?thesis
    using d by (simp add: FeedPaper_def d_def[symmetric] lp fb WriteData_signal_world)
qed


lemma signal_WriteBand_payload_fails:
  assumes "0 < cupsBytesPerLine h"
  shows "WriteBand c h p off lines
           (signal_world bs ((s1, Wr 4096) # (s2, WrError) # rest) g)
       = (- 1, signal_world (bs @ band_command h) rest (g \<or> s1 \<or> s2))"
proof -
  define pay where "pay = band_payload h p off lines 0"
  have pl: "length pay = cupsBytesPerLine h * 8" by (simp add: pay_def band_payload_length)
  have pn: "pay \<noteq> []" using pl assms(1) by auto
  have w1: "WriteData [ESC, 0x2A, 1, of_nat (cupsWidth h mod 256), of_nat ((cupsWidth h div 256) mod 256)]
              (signal_world bs ((s1, Wr 4096) # (s2, WrError) # rest) g)
         = (EPTMD_SUCCESS, signal_world (bs @ band_command h) ((s2, WrError) # rest) (g \<or> s1))"
    by (simp add: WriteData_signal_world band_command_def)
  have w2: "WriteData pay (signal_world b ((s2, WrError) # rest) gg)
         = (- 1, signal_world b rest (gg \<or> s2))" for b gg
    using pn by (rule WriteData_signal_error)
  show ?thesis
    unfolding WriteBand_def w1
    by (simp add: signal_world_fields pay_def[symmetric] band_payload_def[symmetric] w2)
qed

text \<open>The page of five bands: its header, its margins, its scanline reads.\<close>

lemma five_band_header:
  "cupsHeight (slip_header 16 48 2 203) = 48" "cupsBytesPerLine (slip_header 16 48 2 203) = 2"
  "cupsBitsPerPixel (slip_header 16 48 2 203) = 1" "HWResolution1 (slip_header 16 48 2 203) = 203"
  by (simp_all add: slip_header_def)

lemma five_band_config:
  "maxBandLines (slip_config 203 m) = 8" "paperReduction (slip_config 203 m) = m"
  "v_motionUnit (slip_config 203 m) = 203"
  by (simp_all add: slip_config_def)

lemma five_band_feed:
  "feed_point (slip_config 203 m) (slip_header 16 48 2 203) 8 = 8"
  "feed_point (slip_config 203 m) (slip_header 16 48 2 203) 4 = 4"
  by (simp_all add: feed_point_div five_band_header five_band_config)

lemma five_band_feed_bytes: "feed_bytes 4 = [ESC, 0x4A, 4]"
  by (simp add: feed_bytes_def feed_command_def)

lemma five_band_top: "FindBlackRasterLineTop (slip_header 16 48 2 203) five_band_page = 4"
  by code_simp

lemma five_band_end: "FindBlackRasterLineEnd (slip_header 16 48 2 203) five_band_page = 43"
proof -
  have p: "int ((cupsBytesPerLine (slip_header 16 48 2 203)
                  * ((cupsHeight (slip_header 16 48 2 203) + (2 ^ 32 - 1)) mod 2 ^ 32)) mod 2 ^ 32) = 94"
    by (simp add: slip_header_def)
  have "FindBlackRasterLineEnd_loop (slip_header 16 48 2 203) five_band_page 0 94 = 43"
    by code_simp
  then show ?thesis unfolding FindBlackRasterLineEnd_def p .
qed

lemma five_band_read:
  assumes "\<not> g_TmCanceled w"
  shows "ReadRaster (slip_header 16 48 2 203) five_band_rows (replicate 96 0) w
       = (EPTMD_SUCCESS, five_band_page, w)"
proof -
  have c: "concat (replicate n [a, a]) = replicate (2 * n) a" for n and a :: byte
    by (induction n) simp_all
  have "concat (map snd five_band_rows) = five_band_page"
    by (simp add: five_band_rows_def five_band_page_def c)
  moreover have "\<forall>r \<in> set five_band_rows. \<not> fst r \<and> length (snd r) = cupsBytesPerLine (slip_header 16 48 2 203)"
    by (auto simp: five_band_rows_def five_band_header)
  ultimately show ?thesis
    using ReadRaster_good[OF assms, of five_band_rows "slip_header 16 48 2 203" "replicate 96 0"]
    by (simp add: five_band_header five_band_rows_def)
qed

section \<open>Stopping at a failed write\<close>

lemma after_error_shorter: "after_error sc = Some rest \<Longrightarrow> length rest < length sc"
  by (induction sc) (auto split: if_splits)

lemma after_error_suffix:
  "after_error sc = Some rest \<Longrightarrow> suffix sc1 sc \<Longrightarrow> length rest < length sc1
     \<Longrightarrow> after_error sc1 = Some rest"
proof (induction sc)
  case Nil
  then show ?case by simp
next
  case (Cons e sc)
  show ?case
  proof (cases "sc1 = e # sc")
    case True
    then show ?thesis using Cons(2) by simp
  next
    case False
    then have s: "suffix sc1 sc" using Cons(3) by (simp add: suffix_Cons)
    show ?thesis
    proof (cases "snd e = WrError")
      case True
      then have "rest = sc" using Cons(2) by simp
      then show ?thesis using s Cons(4) suffix_length_le by fastforce
    next
      case False
      then have "after_error sc = Some rest" using Cons(2) by simp
      then show ?thesis using Cons(1) s Cons(4) by blast
    qed
  qed
qed

lemma stops_refl: "stops_at_error sc r sc"
  using after_error_shorter[of sc]
  by (auto simp: stops_at_error_def split: option.splits)

lemma stops_code: "stops_at_error sc r sc' \<Longrightarrow> r' \<noteq> EPTMD_SUCCESS \<Longrightarrow> stops_at_error sc r' sc'"
  by (auto simp: stops_at_error_def split: option.splits)

lemma stops_trans:
  assumes "stops_at_error sc EPTMD_SUCCESS sc1" "stops_at_error sc1 r sc2"
  shows "stops_at_error sc r sc2"
proof -
  have s1: "suffix sc1 sc" and s2: "suffix sc2 sc1"
    using assms by (simp_all add: stops_at_error_def)
  have s: "suffix sc2 sc" using s1 s2 by (rule suffix_order.trans[rotated])
  have "sc2 = rest \<and> r \<noteq> EPTMD_SUCCESS"
    if a: "after_error sc = Some rest" and l: "length sc2 \<le> length rest" for rest
  proof -
    have "\<not> length sc1 \<le> length rest"
      using assms(1) a by (auto simp: stops_at_error_def)
    then have "after_error sc1 = Some rest"
      using after_error_suffix[OF a s1] by simp
    then show ?thesis using assms(2) l by (simp add: stops_at_error_def)
  qed
  then show ?thesis using s by (auto simp: stops_at_error_def split: option.splits)
qed

lemma stops_skip:
  assumes "snd ev \<noteq> WrError" "stops_at_error sc r sc'"
  shows "stops_at_error (ev # sc) r sc'"
  using assms by (auto simp: stops_at_error_def suffix_Cons split: option.splits)

lemma stops_error:
  assumes "snd ev = WrError" "r \<noteq> EPTMD_SUCCESS"
  shows "stops_at_error (ev # sc) r sc"
  using assms by (auto simp: stops_at_error_def suffix_Cons split: option.splits)

lemma WriteData_loop_stops:
  "WriteData_loop p count w = (r, w') \<Longrightarrow> stops_at_error (script w) r (script w')"
proof (induction p count w rule: WriteData_loop.induct)
  case (1 p count w)
  show ?case
  proof (cases "\<not> length p > count")
    case True
    then have "w' = w" using 1(3) by (subst (asm) WriteData_loop.simps) simp
    then show ?thesis by (simp add: stops_refl)
  next
    case lt: False
    show ?thesis
    proof (cases "script w")
      case Nil
      then have "script w' = script w"
        using 1(3) lt by (subst (asm) WriteData_loop.simps) auto
      then show ?thesis by (simp add: stops_refl)
    next
      case (Cons ev rest)
      define w1 where "w1 = w\<lparr>script := rest, g_TmCanceled := (g_TmCanceled w \<or> fst ev)\<rparr>"
      have sw1: "script w1 = rest" by (simp add: w1_def)
      show ?thesis
      proof (cases "snd ev")
        case (Wr n)
        let ?result = "min n (length p - count)"
        show ?thesis
        proof (cases "?result = 0")
          case True
          then have "w' = w1"
            using 1(3) lt Cons Wr
            by (subst (asm) WriteData_loop.simps) (simp add: Let_def w1_def)
          then show ?thesis
            unfolding Cons using Wr sw1 by (auto intro: stops_skip stops_refl)
        next
          case False
          then have m: "(?result = 0) = False" by simp
          have rec: "WriteData_loop p (count + ?result)
                  (w1\<lparr>out := out w1 @ take ?result (drop count p)\<rparr>) = (r, w')"
            using 1(3) lt Cons Wr
            by (subst (asm) WriteData_loop.simps) (simp add: Let_def w1_def m del: min_less_iff_conj)
          have "stops_at_error (script (w1\<lparr>out := out w1 @ take ?result (drop count p)\<rparr>)) r (script w')"
            using 1(1)[OF lt Cons w1_def Wr refl False rec] .
          then show ?thesis unfolding Cons using Wr sw1 by (auto intro: stops_skip)
        qed
      next
        case WrEINTR
        have rec: "WriteData_loop p ((count + (2 ^ 32 - 1)) mod 2 ^ 32) w1 = (r, w')"
          using 1(3) lt Cons WrEINTR
          by (subst (asm) WriteData_loop.simps) (simp add: Let_def w1_def)
        have "stops_at_error (script w1) r (script w')"
          using 1(2)[OF lt Cons w1_def WrEINTR rec] .
        then show ?thesis unfolding Cons using WrEINTR sw1 by (auto intro: stops_skip)
      next
        case WrError
        have "r = - 1" "w' = w1"
          using 1(3) lt Cons WrError
          by (subst (asm) WriteData_loop.simps, simp add: Let_def w1_def)+
        then show ?thesis unfolding Cons using WrError sw1 by (auto intro: stops_error)
      qed
    qed
  qed
qed

lemma WriteData_stops:
  "WriteData p w = (r, w') \<Longrightarrow> stops_at_error (script w) r (script w')"
  unfolding WriteData_def by (rule WriteData_loop_stops)

lemma FeedPaper_loop_stops:
  "FeedPaper_loop point w = (r, pt, w') \<Longrightarrow> stops_at_error (script w) r (script w')"
proof (induction point w rule: FeedPaper_loop.induct)
  case (1 point w)
  show ?case
  proof (cases "0xff < point")
    case False
    then have "w' = w" using 1(2) by (subst (asm) FeedPaper_loop.simps) simp
    then show ?thesis by (simp add: stops_refl)
  next
    case True
    obtain r1 w1 where wd: "WriteData [ESC, 0x4A, 0xFF] w = (r1, w1)" by (metis surj_pair)
    note s1 = WriteData_stops[OF wd]
    show ?thesis
    proof (cases "EPTMD_SUCCESS \<noteq> r1")
      case f: True
      then have "r = r1" "w' = w1"
        using 1(2) True wd by (subst (asm) FeedPaper_loop.simps, simp)+
      then show ?thesis using s1 by simp
    next
      case ok: False
      then have rec: "FeedPaper_loop (point - 0xff) w1 = (r, pt, w')"
        using 1(2) True wd by (subst (asm) FeedPaper_loop.simps) simp
      have "stops_at_error (script w1) r (script w')"
        using 1(1)[OF True wd[symmetric] ok rec] .
      then show ?thesis using s1 ok by (auto intro: stops_trans)
    qed
  qed
qed

lemma FeedPaper_stops:
  "FeedPaper c h n w = (r, w') \<Longrightarrow> stops_at_error (script w) r (script w')"
  by (auto simp: FeedPaper_def Let_def split: prod.splits if_splits
        dest!: FeedPaper_loop_stops WriteData_stops intro: stops_refl stops_trans)

lemma WriteBand_stops:
  "WriteBand c h p off lines w = (r, w') \<Longrightarrow> stops_at_error (script w) r (script w')"
  by (auto simp: WriteBand_def split: prod.splits if_splits
        dest!: FeedPaper_stops WriteData_stops intro: stops_refl stops_trans)

lemma WriteRaster_loop_stops:
  "WriteRaster_loop c h p lst line_no w = (ro, l', w')
     \<Longrightarrow> stops_at_error (script w) (case ro of None \<Rightarrow> EPTMD_SUCCESS | Some r \<Rightarrow> r) (script w')
         \<and> (ro \<noteq> Some EPTMD_SUCCESS)"
proof (induction c h p lst line_no w rule: WriteRaster_loop.induct)
  case (1 c h p lst line_no w)
  show ?case
  proof (cases "(line_no + maxBandLines c) < lst \<and> 0 < maxBandLines c")
    case False
    then have "ro = None" "w' = w"
      using 1(2) by (subst (asm) WriteRaster_loop.simps, auto)+
    then show ?thesis by (simp add: stops_refl)
  next
    case True
    obtain r1 w1 where wb: "WriteBand c h p (cupsBytesPerLine h * line_no) (maxBandLines c) w = (r1, w1)"
      by (metis surj_pair)
    note s1 = WriteBand_stops[OF wb]
    have unf: "(if EPTMD_SUCCESS \<noteq> r1 then (Some 3403, line_no, w1)
         else if g_TmCanceled w1 then (Some EPTMD_CANCEL, line_no, w1)
         else WriteRaster_loop c h p lst (line_no + maxBandLines c) w1) = (ro, l', w')"
      using 1(2) True by (subst (asm) WriteRaster_loop.simps) (simp add: wb)
    show ?thesis
    proof (cases "EPTMD_SUCCESS \<noteq> r1")
      case f: True
      then show ?thesis using unf s1 by (auto intro: stops_code)
    next
      case ok: False
      show ?thesis
      proof (cases "g_TmCanceled w1")
        case True
        then show ?thesis using unf s1 ok by (auto intro: stops_code)
      next
        case nc: False
        have rec: "WriteRaster_loop c h p lst (line_no + maxBandLines c) w1 = (ro, l', w')"
          using unf ok nc by simp
        show ?thesis
          using 1(1)[OF True wb[symmetric] ok nc rec] s1 ok by (auto intro: stops_trans)
      qed
    qed
  qed
qed

text \<open>\<open>WriteRaster\<close> for a page that is not blank, the printable range ending before \<open>lst\<close>.\<close>

lemma WriteRaster_nonblank:
  assumes "cupsHeight h \<noteq> FindBlackRasterLineTop h p"
    and "lst = FindBlackRasterLineEnd h p + 1"
  shows "WriteRaster c h p w =
     (case (if \<not> ((TmPaperReductionTop = paperReduction c)
                      \<or> (TmPaperReductionBoth = paperReduction c))
               then FeedPaper c h (FindBlackRasterLineTop h p) w
               else (EPTMD_SUCCESS, w)) of
           (result, w1) \<Rightarrow>
             if EPTMD_SUCCESS \<noteq> result then (3402, w1)
             else (case WriteRaster_loop c h p lst (FindBlackRasterLineTop h p) w1 of
                     (Some r, line_no, w2) \<Rightarrow> (r, w2)
                   | (None, line_no, w2) \<Rightarrow>
                       (case (if line_no < lst
                              then WriteBand c h p (cupsBytesPerLine h * line_no) (lst - line_no) w2
                              else (EPTMD_SUCCESS, w2)) of
                          (result, w3) \<Rightarrow>
                            if EPTMD_SUCCESS \<noteq> result then (3404, w3)
                            else if \<not> ((TmPaperReductionBottom = paperReduction c)
                                         \<or> (TmPaperReductionBoth = paperReduction c))
                            then (case FeedPaper c h (cupsHeight h - lst) w3 of
                                    (result, w4) \<Rightarrow>
                                      if EPTMD_SUCCESS \<noteq> result then (3405, w4)
                                      else (EPTMD_SUCCESS, w4))
                            else (EPTMD_SUCCESS, w3))))"
  unfolding WriteRaster_def Let_def assms(2) using assms(1) by simp

lemma WriteRaster_stops:
  assumes "WriteRaster c h p w = (r, w')"
  shows "stops_at_error (script w) r (script w')"
proof (cases "cupsHeight h = FindBlackRasterLineTop h p")
  case True
  then show ?thesis
    using assms
    by (auto simp: WriteRaster_def Let_def split: prod.splits if_splits
          dest!: FeedPaper_stops intro: stops_refl stops_code)
next
  case False
  define lst where "lst = FindBlackRasterLineEnd h p + 1"
  note W = WriteRaster_nonblank[OF False lst_def, of c w]
  obtain r1 w1 where tf: "(if \<not> ((TmPaperReductionTop = paperReduction c)
                      \<or> (TmPaperReductionBoth = paperReduction c))
               then FeedPaper c h (FindBlackRasterLineTop h p) w
               else (EPTMD_SUCCESS, w)) = (r1, w1)"
    by (metis surj_pair)
  have s1: "stops_at_error (script w) r1 (script w1)"
    using tf by (auto split: if_splits dest: FeedPaper_stops intro: stops_refl)
  show ?thesis
  proof (cases "EPTMD_SUCCESS \<noteq> r1")
    case True
    then have "r = 3402" "w' = w1"
      using assms unfolding W tf by simp_all
    then show ?thesis using s1 by (auto intro: stops_code)
  next
    case ok1: False
    then have s1: "stops_at_error (script w) EPTMD_SUCCESS (script w1)" using s1 by simp
    obtain ro l2 w2 where lp: "WriteRaster_loop c h p lst (FindBlackRasterLineTop h p) w1 = (ro, l2, w2)"
      by (metis surj_pair)
    note s2 = WriteRaster_loop_stops[OF lp]
    show ?thesis
    proof (cases ro)
      case (Some rr)
      then have "r = rr" "w' = w2"
        using assms ok1 unfolding W tf by (simp_all add: lp)
      then show ?thesis using s1 s2 Some by (auto intro: stops_trans)
    next
      case None
      then have s2: "stops_at_error (script w) EPTMD_SUCCESS (script w2)"
        using s1 s2 by (auto intro: stops_trans)
      obtain r3 w3 where tb: "(if l2 < lst
                              then WriteBand c h p (cupsBytesPerLine h * l2) (lst - l2) w2
                              else (EPTMD_SUCCESS, w2)) = (r3, w3)"
        by (metis surj_pair)
      have s3: "stops_at_error (script w2) r3 (script w3)"
        using tb by (auto split: if_splits dest: WriteBand_stops intro: stops_refl)
      have W3: "(if EPTMD_SUCCESS \<noteq> r3 then (3404, w3)
                            else if \<not> ((TmPaperReductionBottom = paperReduction c)
                                         \<or> (TmPaperReductionBoth = paperReduction c))
                            then (case FeedPaper c h (cupsHeight h - lst) w3 of
                                    (result, w4) \<Rightarrow>
                                      if EPTMD_SUCCESS \<noteq> result then (3405, w4)
                                      else (EPTMD_SUCCESS, w4))
                            else (EPTMD_SUCCESS, w3)) = (r, w')"
        using assms ok1 None unfolding W tf by (simp add: lp tb)
      show ?thesis
      proof (cases "EPTMD_SUCCESS \<noteq> r3")
        case True
        then have "r = 3404" "w' = w3" using W3 by simp_all
        moreover have "stops_at_error (script w) r3 (script w3)"
          using s2 s3 by (rule stops_trans)
        ultimately show ?thesis by (auto intro: stops_code)
      next
        case ok3: False
        then have s3: "stops_at_error (script w) EPTMD_SUCCESS (script w3)"
          using s2 s3 by (auto intro: stops_trans)
        show ?thesis
        proof (cases "\<not> ((TmPaperReductionBottom = paperReduction c)
                                         \<or> (TmPaperReductionBoth = paperReduction c))")
          case nb: False
          then have "r = EPTMD_SUCCESS" "w' = w3" using W3 ok3 by auto
          then show ?thesis using s3 by simp
        next
          case True
          obtain r4 w4 where bf: "FeedPaper c h (cupsHeight h - lst) w3 = (r4, w4)"
            by (metis surj_pair)
          have s4: "stops_at_error (script w) r4 (script w4)"
            using s3 FeedPaper_stops[OF bf] by (rule stops_trans)
          have "(r = 3405 \<and> r4 \<noteq> EPTMD_SUCCESS \<or> r = EPTMD_SUCCESS \<and> r4 = EPTMD_SUCCESS) \<and> w' = w4"
            using W3 ok3 True bf by (auto split: if_splits)
          then show ?thesis using s4 by (auto intro: stops_code)
        qed
      qed
    qed
  qed
qed

lemma WriteUserFile_loop_stops:
  "WriteUserFile_loop content rd_err w = (ro, w')
     \<Longrightarrow> stops_at_error (script w) (case ro of None \<Rightarrow> EPTMD_SUCCESS | Some r \<Rightarrow> r) (script w')
         \<and> (ro \<noteq> Some EPTMD_SUCCESS)"
proof (induction content rd_err w rule: WriteUserFile_loop.induct)
  case (1 content rd_err w)
  obtain sz rest where ru: "ReadUserFile content rd_err 1024 = (sz, rest)" by (metis surj_pair)
  show ?case
  proof (cases "0 > sz \<or> 0 = sz")
    case True
    then have "w' = w" "ro \<noteq> Some EPTMD_SUCCESS"
      using 1(2) ru by (subst (asm) WriteUserFile_loop.simps, auto)+
    then show ?thesis by (cases ro) (auto intro: stops_refl)
  next
    case False
    then have a: "\<not> 0 > sz" and b: "0 \<noteq> sz" by simp_all
    obtain r1 w1 where wd: "WriteData (take (nat sz) content) w = (r1, w1)" by (metis surj_pair)
    note s1 = WriteData_stops[OF wd]
    have unf: "(if EPTMD_SUCCESS \<noteq> r1 then (Some EPTMD_FAILED, w1)
          else WriteUserFile_loop rest rd_err w1) = (ro, w')"
      using 1(2) ru a b wd by (subst (asm) WriteUserFile_loop.simps) simp
    show ?thesis
    proof (cases "EPTMD_SUCCESS \<noteq> r1")
      case True
      then show ?thesis using unf s1 by (auto intro: stops_code)
    next
      case ok: False
      have rec: "WriteUserFile_loop rest rd_err w1 = (ro, w')" using unf ok by simp
      show ?thesis
        using 1(1)[OF ru[symmetric] a b wd[symmetric] ok rec] s1 ok by (auto intro: stops_trans)
    qed
  qed
qed

lemma WriteUserFile_stops:
  "WriteUserFile n w = (r, w') \<Longrightarrow> stops_at_error (script w) r (script w')"
  by (auto simp: WriteUserFile_def split: prod.splits if_splits option.splits ufile.splits
        dest!: WriteUserFile_loop_stops intro: stops_refl stops_code)

lemma StartPage_stops:
  "StartPage c w = (r, w') \<Longrightarrow> stops_at_error (script w) r (script w')"
  by (auto simp: StartPage_def split: prod.splits if_splits
        dest!: WriteUserFile_stops WriteData_stops intro: stops_refl stops_trans stops_code)

lemma EndPage_stops:
  "EndPage c h w = (r, w') \<Longrightarrow> stops_at_error (script w) r (script w')"
  by (auto simp: EndPage_def split: prod.splits if_splits
        dest!: WriteUserFile_stops WriteData_stops intro: stops_refl stops_trans stops_code)

lemma ReadRaster_loop_script:
  "ReadRaster_loop h i rows buf w = (r, buf', w') \<Longrightarrow> script w' = script w"
proof (induction h i rows buf w rule: ReadRaster_loop.induct)
  case (1 h i rows buf w)
  then show ?case
    by (subst (asm) (2) ReadRaster_loop.simps) (auto simp: Let_def split: if_splits)
qed

lemma ReadRaster_script:
  "ReadRaster h rows buf w = (r, buf', w') \<Longrightarrow> script w' = script w"
  unfolding ReadRaster_def by (rule ReadRaster_loop_script)

lemma DoPage_stops:
  assumes "DoPage c h rows buf w = (r, buf', w')"
  shows "stops_at_error (script w) r (script w')"
proof -
  obtain r1 w1 where a: "StartPage c w = (r1, w1)" by (metis surj_pair)
  note s1 = StartPage_stops[OF a]
  show ?thesis
  proof (cases "r1 = EPTMD_SUCCESS")
    case False
    then have "r = r1" "w' = w1" using assms a by (simp_all add: DoPage_def)
    then show ?thesis using s1 by simp
  next
    case ok1: True
    obtain r2 b2 w2 where b: "ReadRaster h rows buf w1 = (r2, b2, w2)" by (metis surj_pair)
    have sc2: "script w2 = script w1" by (rule ReadRaster_script[OF b])
    show ?thesis
    proof (cases "r2 = EPTMD_SUCCESS")
      case False
      then have "r = r2" "w' = w2" using assms a b ok1 by (simp_all add: DoPage_def)
      then show ?thesis using s1 sc2 False by (auto intro: stops_code)
    next
      case ok2: True
      obtain r3 w3 where c: "WriteRaster c h b2 w2 = (r3, w3)" by (metis surj_pair)
      have s3: "stops_at_error (script w) r3 (script w3)"
        using s1 ok1 WriteRaster_stops[OF c] sc2 by (auto intro: stops_trans)
      show ?thesis
      proof (cases "r3 = EPTMD_SUCCESS")
        case False
        then have "r = r3" "w' = w3" using assms a b c ok1 ok2 by (simp_all add: DoPage_def)
        then show ?thesis using s3 by simp
      next
        case ok3: True
        obtain r4 w4 where d: "EndPage c h w3 = (r4, w4)" by (metis surj_pair)
        have "r = r4" "w' = w4" using assms a b c d ok1 ok2 ok3 by (simp_all add: DoPage_def)
        then show ?thesis using s3 ok3 EndPage_stops[OF d] by (auto intro: stops_trans)
      qed
    qed
  qed
qed

lemma DoJob_loop_stops:
  "DoJob_loop c pages pb w = (r, w') \<Longrightarrow> stops_at_error (script w) r (script w')"
proof (induction pages arbitrary: pb w)
  case Nil
  then show ?case by (simp add: stops_refl)
next
  case (Cons pg pages)
  obtain h rows where pg: "pg = (h, rows)" by (cases pg)
  show ?case
  proof (cases "1 \<noteq> cupsBitsPerPixel h")
    case True
    then show ?thesis using Cons(2) pg by (auto intro: stops_refl)
  next
    case False
    define buf where "buf = (case pb of
                         None \<Rightarrow> replicate ((cupsHeight h * cupsBytesPerLine h) mod 2 ^ 32) (0::byte)
                       | Some b \<Rightarrow> b)"
    obtain r1 b' w1 where dp: "DoPage c h rows buf w = (r1, b', w1)" by (metis surj_pair)
    note s1 = DoPage_stops[OF dp]
    show ?thesis
    proof (cases "r1 = EPTMD_SUCCESS")
      case True
      then have "DoJob_loop c pages (Some b') w1 = (r, w')"
        using Cons(2) pg False dp by (simp add: buf_def Let_def)
      then have "stops_at_error (script w1) r (script w')" by (rule Cons(1))
      then show ?thesis using s1 True by (auto intro: stops_trans)
    next
      case nz: False
      then have "r = r1" "w' = w1"
        using Cons(2) pg False dp by (simp_all add: buf_def Let_def)
      then show ?thesis using s1 by simp
    qed
  qed
qed

lemma StartJob_commands_stops:
  "StartJob_commands cmds w = (r, w') \<Longrightarrow> list_all (\<lambda>cc. fst cc \<noteq> EPTMD_SUCCESS) cmds
     \<Longrightarrow> stops_at_error (script w) r (script w')"
proof (induction cmds arbitrary: w)
  case Nil
  then show ?case by (simp add: stops_refl)
next
  case (Cons cc cmds)
  obtain code cmd where cc: "cc = (code, cmd)" by (cases cc)
  obtain r1 w1 where wd: "WriteData cmd w = (r1, w1)" by (metis surj_pair)
  note s1 = WriteData_stops[OF wd]
  show ?case
  proof (cases "EPTMD_SUCCESS \<noteq> r1")
    case True
    then have "r = code" "w' = w1" using Cons(2) cc wd by simp_all
    then show ?thesis using s1 Cons(3) cc by (auto intro: stops_code)
  next
    case False
    then have "StartJob_commands cmds w1 = (r, w')" using Cons(2) cc wd by simp
    then have "stops_at_error (script w1) r (script w')" using Cons(1) Cons(3) by simp
    then show ?thesis using s1 False by (auto intro: stops_trans)
  qed
qed

lemma OpenDrawer_stops:
  "OpenDrawer c w = (r, w') \<Longrightarrow> stops_at_error (script w) r (script w')"
  by (auto simp: OpenDrawer_def split: if_splits dest!: WriteData_stops intro: stops_refl)

lemma SoundBuzzer_stops:
  "SoundBuzzer c w = (r, w') \<Longrightarrow> stops_at_error (script w) r (script w')"
  by (auto simp: SoundBuzzer_def split: if_splits prod.splits EPTME_BUZZER.splits
        dest!: WriteData_stops intro: stops_refl)

lemma StartJob_stops:
  assumes "StartJob c w = (r, w')"
  shows "stops_at_error (script w) r (script w')"
proof (cases "g_TmCanceled w")
  case True
  then show ?thesis using assms by (auto simp: StartJob_def intro: stops_refl)
next
  case nc: False
  obtain r1 w1 where a: "StartJob_commands
                   [(2101, [ESC, 0x3D, 0x01, ESC, 0x40]),
                    (2102, [ESC, 0x63, 0x30, 0x04]),
                    (2103, [ESC, 0x63, 0x31, 0x04]),
                    (2104, [ESC, 0x63, 0x33, 0x00]),
                    (2105, [GS, 0x28, 0x47, 2, 0, 48, 4])] w = (r1, w1)"
    by (metis surj_pair)
  have s1: "stops_at_error (script w) r1 (script w1)"
    by (rule StartJob_commands_stops[OF a]) simp
  show ?thesis
  proof (cases "EPTMD_SUCCESS \<noteq> r1")
    case True
    then have "r = r1" "w' = w1" using assms nc a by (simp_all add: StartJob_def)
    then show ?thesis using s1 by simp
  next
    case ok1: False
    obtain r2 w2 where b: "OpenDrawer c w1 = (r2, w2)" by (metis surj_pair)
    have s2: "stops_at_error (script w) r2 (script w2)"
      using s1 ok1 OpenDrawer_stops[OF b] by (auto intro: stops_trans)
    show ?thesis
    proof (cases "EPTMD_SUCCESS \<noteq> r2")
      case True
      then have "r = 2106" "w' = w2" using assms nc a b ok1 by (simp_all add: StartJob_def)
      then show ?thesis using s2 by (auto intro: stops_code)
    next
      case ok2: False
      obtain r3 w3 where c: "SoundBuzzer c w2 = (r3, w3)" by (metis surj_pair)
      have s3: "stops_at_error (script w) r3 (script w3)"
        using s2 ok2 SoundBuzzer_stops[OF c] by (auto intro: stops_trans)
      show ?thesis
      proof (cases "EPTMD_SUCCESS \<noteq> r3")
        case True
        then have "r = 2107" "w' = w3" using assms nc a b c ok1 ok2 by (simp_all add: StartJob_def)
        then show ?thesis using s3 by (auto intro: stops_code)
      next
        case ok3: False
        obtain r4 w4 where d: "WriteUserFile ''StartJob.prn'' w3 = (r4, w4)" by (metis surj_pair)
        have s4: "stops_at_error (script w) r4 (script w4)"
          using s3 ok3 WriteUserFile_stops[OF d] by (auto intro: stops_trans)
        have "(r = 2108 \<and> r4 \<noteq> EPTMD_SUCCESS \<or> r = EPTMD_SUCCESS \<and> r4 = EPTMD_SUCCESS) \<and> w' = w4"
          using assms nc a b c d ok1 ok2 ok3 by (auto simp: StartJob_def split: if_splits)
        then show ?thesis using s4 by (auto intro: stops_code)
      qed
    qed
  qed
qed

text \<open>
  The result codes: a stage returns its failure code in the state the failed step left,
  the steps after it not run.
\<close>

lemma FeedPaper_fails:
  assumes "0 < feed_point c h n" "feed_point c h n \<le> 255"
    and "WriteData [ESC, 0x4A, of_nat (feed_point c h n)] w = (r, w')" "r \<noteq> EPTMD_SUCCESS"
  shows "FeedPaper c h n w = (r, w')"
proof -
  have lp: "FeedPaper_loop (feed_point c h n) w = (EPTMD_SUCCESS, feed_point c h n, w)"
    using assms(2) by (subst FeedPaper_loop.simps) simp
  show ?thesis using assms by (simp add: FeedPaper_def lp)
qed

lemma WriteBand_fails_header:
  assumes "WriteData (band_command h) w = (r, w1)" "r \<noteq> EPTMD_SUCCESS"
  shows "WriteBand c h p off lines w = (r, w1)"
  using assms by (simp add: WriteBand_def band_command_def)

lemma WriteBand_fails_payload:
  assumes "WriteData (band_command h) w = (EPTMD_SUCCESS, w1)"
    and "WriteData (band_payload h p off lines (uninit_i w1)) w1 = (r, w2)" "r \<noteq> EPTMD_SUCCESS"
  shows "WriteBand c h p off lines w = (r, w2)"
  using assms by (simp add: WriteBand_def band_command_def band_payload_def)

lemma WriteBand_fails_feed:
  assumes "WriteData (band_command h) w = (EPTMD_SUCCESS, w1)"
    and "WriteData (band_payload h p off lines (uninit_i w1)) w1 = (EPTMD_SUCCESS, w2)"
    and "FeedPaper c h 8 w2 = (r, w3)" "r \<noteq> EPTMD_SUCCESS"
  shows "WriteBand c h p off lines w = (r, w3)"
  using assms by (simp add: WriteBand_def band_command_def band_payload_def)

lemma WriteBand_header_fails:
  assumes "script w = (sig, WrError) # rest"
  shows "WriteBand c h p off lines w = (- 1, w\<lparr>script := rest, g_TmCanceled := (g_TmCanceled w \<or> sig)\<rparr>)"
  by (simp add: WriteBand_def WriteData_error[OF assms])

lemma WriteRaster_loop_band_fails:
  assumes "line_no + maxBandLines c < lst" "0 < maxBandLines c"
    and "WriteBand c h p (cupsBytesPerLine h * line_no) (maxBandLines c) w = (r, w')"
    and "r \<noteq> EPTMD_SUCCESS"
  shows "WriteRaster_loop c h p lst line_no w = (Some 3403, line_no, w')"
  using assms by (subst WriteRaster_loop.simps) simp

lemma WriteRaster_returns_loop_result:
  assumes "cupsHeight h \<noteq> FindBlackRasterLineTop h p"
    and "(if \<not> ((TmPaperReductionTop = paperReduction c) \<or> (TmPaperReductionBoth = paperReduction c))
          then FeedPaper c h (FindBlackRasterLineTop h p) w
          else (EPTMD_SUCCESS, w)) = (EPTMD_SUCCESS, w1)"
    and "WriteRaster_loop c h p (FindBlackRasterLineEnd h p + 1) (FindBlackRasterLineTop h p) w1
           = (Some r, l, w2)"
  shows "WriteRaster c h p w = (r, w2)"
  unfolding WriteRaster_nonblank[OF assms(1) refl] assms(2) by (simp add: assms(3)[simplified])

lemma StartPage_fails:
  assumes "WriteData [GS, 0x28, 0x47, 2, 0, 84, 1] w = (r, w1)" "r \<noteq> EPTMD_SUCCESS"
  shows "StartPage c w = (3101, w1)"
  using assms by (simp add: StartPage_def)

lemma StartJob_fails:
  assumes "\<not> g_TmCanceled w" "WriteData [ESC, 0x3D, 0x01, ESC, 0x40] w = (r, w1)" "r \<noteq> EPTMD_SUCCESS"
  shows "StartJob c w = (2101, w1)"
  using assms by (simp add: StartJob_def)

lemma DoPage_WriteRaster_fails:
  assumes "StartPage c w = (EPTMD_SUCCESS, w1)" "ReadRaster h rows buf w1 = (EPTMD_SUCCESS, buf', w2)"
    "WriteRaster c h buf' w2 = (r, w3)" "r \<noteq> EPTMD_SUCCESS"
  shows "DoPage c h rows buf w = (r, buf', w3)"
  using assms by (simp add: DoPage_def)

lemma DoJob_loop_page_fails:
  assumes "cupsBitsPerPixel h = 1"
    and "DoPage c h rows (case pb of None \<Rightarrow> replicate ((cupsHeight h * cupsBytesPerLine h) mod 2 ^ 32) 0
                                   | Some b \<Rightarrow> b) w = (r, buf', w')"
    and "r \<noteq> EPTMD_SUCCESS"
  shows "DoJob_loop c ((h, rows) # pages) pb w = (r, w')"
  using assms by simp

lemma DoJob_StartJob_fails:
  assumes "StartJob c w = (r, w1)" "r \<noteq> EPTMD_SUCCESS"
  shows "DoJob c pages w = (r, snd (EndJob c w1))"
  using assms by (simp add: DoJob_def)

lemma DoJob_page_fails:
  assumes "StartJob c w = (EPTMD_SUCCESS, w1)" "DoJob_loop c pages None w1 = (r, w2)" "r \<noteq> EPTMD_SUCCESS"
  shows "DoJob c pages w = (r, snd (EndJob c w2))"
  using assms by (simp add: DoJob_def)

section \<open>Write failures (C9)\<close>

text \<open>
  The job whose ninth \<open>write\<close>, the payload of the first band of the page, fails with an
  error other than \<open>EINTR\<close>.
\<close>

lemma fail_StartJob:
  "StartJob (slip_config 203 TmPaperReductionOff) (signal_world [] fail_script False)
     = (EPTMD_SUCCESS, signal_world job_prologue (drop 5 fail_script) False)"
  by (simp add: fail_script_def signal_StartJob)

lemma fail_StartPage:
  "StartPage (slip_config 203 TmPaperReductionOff) (signal_world job_prologue (drop 5 fail_script) False)
      = (EPTMD_SUCCESS, signal_world page_start_out (drop 6 fail_script) False)"
  by (simp add: fail_script_def signal_StartPage page_start_out_def)

lemma fail_top_feed:
  "FeedPaper (slip_config 203 TmPaperReductionOff) (slip_header 16 48 2 203) 4
     (signal_world page_start_out (drop 6 fail_script) False)
   = (EPTMD_SUCCESS, signal_world top_feed_out (drop 7 fail_script) False)"
  by (simp add: fail_script_def signal_FeedPaper five_band_feed five_band_feed_bytes top_feed_out_def)

lemma fail_band_header:
  "WriteData (band_command (slip_header 16 48 2 203)) (signal_world top_feed_out (drop 7 fail_script) False)
   = (EPTMD_SUCCESS,
      signal_world (top_feed_out @ band_command (slip_header 16 48 2 203)) (drop 8 fail_script) False)"
  by (simp add: fail_script_def WriteData_signal_world band_command_def)

lemma fail_band_payload:
  "WriteData (band_payload (slip_header 16 48 2 203) five_band_page 8 8 0)
     (signal_world (top_feed_out @ band_command (slip_header 16 48 2 203)) (drop 8 fail_script) False)
   = (- 1, signal_world (top_feed_out @ band_command (slip_header 16 48 2 203)) (drop 9 fail_script) False)"
proof -
  have "length (band_payload (slip_header 16 48 2 203) five_band_page 8 8 0) = 16"
    by (simp add: band_payload_length five_band_header)
  then have pn: "band_payload (slip_header 16 48 2 203) five_band_page 8 8 0 \<noteq> []" by auto
  show ?thesis
    using WriteData_signal_error[OF pn] by (simp add: fail_script_def)
qed

lemma fail_band:
  "WriteBand (slip_config 203 TmPaperReductionOff) (slip_header 16 48 2 203) five_band_page 8 8
     (signal_world top_feed_out (drop 7 fail_script) False)
   = (- 1, signal_world (top_feed_out @ band_command (slip_header 16 48 2 203)) (drop 9 fail_script) False)"
  by (simp add: fail_script_def signal_WriteBand_payload_fails five_band_header)

lemma fail_loop:
  "WriteRaster_loop (slip_config 203 TmPaperReductionOff) (slip_header 16 48 2 203) five_band_page 44 4
     (signal_world top_feed_out (drop 7 fail_script) False)
   = (Some 3403, 4,
      signal_world (top_feed_out @ band_command (slip_header 16 48 2 203)) (drop 9 fail_script) False)"
  by (rule WriteRaster_loop_band_fails[where r = "- 1"])
     (simp_all add: five_band_config five_band_header fail_band)

lemma fail_WriteRaster:
  "WriteRaster (slip_config 203 TmPaperReductionOff) (slip_header 16 48 2 203) five_band_page
     (signal_world page_start_out (drop 6 fail_script) False)
   = (3403, signal_world (top_feed_out @ band_command (slip_header 16 48 2 203)) (drop 9 fail_script) False)"
  by (rule WriteRaster_returns_loop_result[where l = 4 and ?w1.0 = "signal_world top_feed_out (drop 7 fail_script) False"])
     (simp_all add: five_band_top five_band_end five_band_header five_band_config fail_top_feed fail_loop)

lemma fail_DoJob_loop:
  "DoJob_loop (slip_config 203 TmPaperReductionOff) [(slip_header 16 48 2 203, five_band_rows)] None
     (signal_world job_prologue (drop 5 fail_script) False)
   = (3403, signal_world (top_feed_out @ band_command (slip_header 16 48 2 203)) (drop 9 fail_script) False)"
proof -
  have dp: "DoPage (slip_config 203 TmPaperReductionOff) (slip_header 16 48 2 203) five_band_rows
               (replicate 96 0) (signal_world job_prologue (drop 5 fail_script) False)
      = (3403, five_band_page,
         signal_world (top_feed_out @ band_command (slip_header 16 48 2 203)) (drop 9 fail_script) False)"
    by (simp add: DoPage_def fail_StartPage five_band_read signal_world_fields fail_WriteRaster)
  show ?thesis by (simp add: five_band_header dp)
qed

lemma failing_StartJob:
  "StartJob (slip_config 203 TmPaperReductionOff) failing_world
     = (2101, failing_world\<lparr>script := []\<rparr>)"
proof -
  have s: "script failing_world = (False, WrError) # []" by (simp add: failing_world_def)
  have g: "\<not> g_TmCanceled failing_world" by (simp add: failing_world_def)
  have "failing_world\<lparr>script := [], g_TmCanceled := (g_TmCanceled failing_world \<or> False)\<rparr>
      = failing_world\<lparr>script := []\<rparr>" by (simp add: failing_world_def)
  then show ?thesis
    using g by (simp add: StartJob_def WriteData_error[OF s])
qed

lemma failing_EndJob:
  "EndJob (slip_config 203 TmPaperReductionOff) (failing_world\<lparr>script := []\<rparr>)
     = (EPTMD_SUCCESS, failing_world\<lparr>script := [], out := [0x41]\<rparr>)"
proof -
  let ?w = "failing_world\<lparr>script := []\<rparr>"
  have s: "script ?w = []" by simp
  have u: "userfile ?w ''EndJob.prn'' = Opened [0x41] False False" by (simp add: failing_world_def)
  have ok: "ufile_ok (userfile ?w ''EndJob.prn'')" unfolding u by (simp add: ufile_ok_def)
  have g: "\<not> g_TmCanceled ?w" by (simp add: failing_world_def)
  have o: "out failing_world = []" by (simp add: failing_world_def)
  have u': "userfile failing_world ''EndJob.prn'' = Opened [0x41] False False"
    by (simp add: failing_world_def)
  show ?thesis
    using g by (simp add: EndJob_def WriteUserFile_good[OF s ok] u' ufile_bytes_def o)
qed

text \<open>
  C9, as the code has it. A \<open>write\<close> that fails with an error other than \<open>EINTR\<close> makes
  \<open>WriteData\<close> return \<open>-1\<close> at once, at whatever point of the buffer and also after a
  partial \<open>write\<close>, nothing being written after it in that call. Every stage up to the
  page loop stops at the failed \<open>write\<close>: \<open>WriteData\<close>, \<open>FeedPaper\<close>, \<open>WriteBand\<close>,
  \<open>WriteRaster\<close>, \<open>StartPage\<close>, \<open>EndPage\<close>, \<open>DoPage\<close>, \<open>StartJob\<close> and the page loop of
  \<open>DoJob\<close> attempt no \<open>write\<close> after it and do not return success. \<open>FeedPaper\<close> and
  \<open>WriteBand\<close> return the result of the failed \<open>WriteData\<close>, at the header, the payload and
  the feed of the band; the band loop returns 3403 and \<open>WriteRaster\<close> returns it without
  the bottom feed; \<open>StartPage\<close> returns 3101 and \<open>StartJob\<close> 2101; a failed \<open>WriteRaster\<close>
  ends the page without \<open>EndPage\<close>; a failed page ends the page loop, the pages after it
  untouched. \<open>DoJob\<close> then still calls \<open>EndJob\<close> and returns the failure code: what
  \<open>EndJob\<close> writes follows the failure.
\<close>

theorem write_failure_aborts_stage:
  "(count < length p \<and> script w = (sig, WrError) # rest
      \<longrightarrow> WriteData_loop p count w
            = (- 1, w\<lparr>script := rest, g_TmCanceled := (g_TmCanceled w \<or> sig)\<rparr>))
   \<and> (script w = (sig, WrError) # rest \<and> p \<noteq> []
      \<longrightarrow> WriteData p w = (- 1, w\<lparr>script := rest, g_TmCanceled := (g_TmCanceled w \<or> sig)\<rparr>))
   \<and> (script w = (s1, Wr n) # (sig, WrError) # rest \<and> 0 < n \<and> n < length p
      \<longrightarrow> WriteData p w
            = (- 1, w\<lparr>out := out w @ take n p, script := rest,
                       g_TmCanceled := (g_TmCanceled w \<or> s1 \<or> sig)\<rparr>))
   \<and> stops_at_error (script w) (fst (WriteData p w)) (script (snd (WriteData p w)))
   \<and> stops_at_error (script w) (fst (FeedPaper c h n w)) (script (snd (FeedPaper c h n w)))
   \<and> stops_at_error (script w) (fst (WriteBand c h buf off lines w))
        (script (snd (WriteBand c h buf off lines w)))
   \<and> stops_at_error (script w) (fst (WriteRaster c h buf w)) (script (snd (WriteRaster c h buf w)))
   \<and> stops_at_error (script w) (fst (StartPage c w)) (script (snd (StartPage c w)))
   \<and> stops_at_error (script w) (fst (EndPage c h w)) (script (snd (EndPage c h w)))
   \<and> stops_at_error (script w) (fst (DoPage c h rows buf w)) (script (snd (snd (DoPage c h rows buf w))))
   \<and> stops_at_error (script w) (fst (StartJob c w)) (script (snd (StartJob c w)))
   \<and> stops_at_error (script w) (fst (DoJob_loop c pages pb w)) (script (snd (DoJob_loop c pages pb w)))
   \<and> (0 < feed_point c h n \<and> feed_point c h n \<le> 255
        \<and> WriteData [ESC, 0x4A, of_nat (feed_point c h n)] w = (r, w1) \<and> r \<noteq> EPTMD_SUCCESS
      \<longrightarrow> FeedPaper c h n w = (r, w1))
   \<and> (WriteData (band_command h) w = (r, w1) \<and> r \<noteq> EPTMD_SUCCESS
      \<longrightarrow> WriteBand c h buf off lines w = (r, w1))
   \<and> (WriteData (band_command h) w = (EPTMD_SUCCESS, w1)
        \<and> WriteData (band_payload h buf off lines (uninit_i w1)) w1 = (r, w2) \<and> r \<noteq> EPTMD_SUCCESS
      \<longrightarrow> WriteBand c h buf off lines w = (r, w2))
   \<and> (WriteData (band_command h) w = (EPTMD_SUCCESS, w1)
        \<and> WriteData (band_payload h buf off lines (uninit_i w1)) w1 = (EPTMD_SUCCESS, w2)
        \<and> FeedPaper c h 8 w2 = (r, w3) \<and> r \<noteq> EPTMD_SUCCESS
      \<longrightarrow> WriteBand c h buf off lines w = (r, w3))
   \<and> (script w = (sig, WrError) # rest
      \<longrightarrow> WriteBand c h buf off lines w
            = (- 1, w\<lparr>script := rest, g_TmCanceled := (g_TmCanceled w \<or> sig)\<rparr>))
   \<and> (line_no + maxBandLines c < lst \<and> 0 < maxBandLines c
        \<and> WriteBand c h buf (cupsBytesPerLine h * line_no) (maxBandLines c) w = (r, w1)
        \<and> r \<noteq> EPTMD_SUCCESS
      \<longrightarrow> WriteRaster_loop c h buf lst line_no w = (Some 3403, line_no, w1))
   \<and> (cupsHeight h \<noteq> FindBlackRasterLineTop h buf
        \<and> (if \<not> ((TmPaperReductionTop = paperReduction c) \<or> (TmPaperReductionBoth = paperReduction c))
            then FeedPaper c h (FindBlackRasterLineTop h buf) w
            else (EPTMD_SUCCESS, w)) = (EPTMD_SUCCESS, w1)
        \<and> WriteRaster_loop c h buf (FindBlackRasterLineEnd h buf + 1) (FindBlackRasterLineTop h buf) w1
             = (Some r, line_no, w2)
      \<longrightarrow> WriteRaster c h buf w = (r, w2))
   \<and> (WriteData [GS, 0x28, 0x47, 2, 0, 84, 1] w = (r, w1) \<and> r \<noteq> EPTMD_SUCCESS
      \<longrightarrow> StartPage c w = (3101, w1))
   \<and> (\<not> g_TmCanceled w \<and> WriteData [ESC, 0x3D, 0x01, ESC, 0x40] w = (r, w1) \<and> r \<noteq> EPTMD_SUCCESS
      \<longrightarrow> StartJob c w = (2101, w1))
   \<and> (StartPage c w = (EPTMD_SUCCESS, w1) \<and> ReadRaster h rows buf w1 = (EPTMD_SUCCESS, buf', w2)
        \<and> WriteRaster c h buf' w2 = (r, w3) \<and> r \<noteq> EPTMD_SUCCESS
      \<longrightarrow> DoPage c h rows buf w = (r, buf', w3))
   \<and> (cupsBitsPerPixel h = 1
        \<and> DoPage c h rows (case pb of None \<Rightarrow> replicate ((cupsHeight h * cupsBytesPerLine h) mod 2 ^ 32) 0
                                     | Some b \<Rightarrow> b) w = (r, buf', w')
        \<and> r \<noteq> EPTMD_SUCCESS
      \<longrightarrow> DoJob_loop c ((h, rows) # pages) pb w = (r, w'))
   \<and> (StartJob c w = (r, w1) \<and> r \<noteq> EPTMD_SUCCESS
      \<longrightarrow> DoJob c pages w = (r, snd (EndJob c w1)))
   \<and> (StartJob c w = (EPTMD_SUCCESS, w1) \<and> DoJob_loop c pages None w1 = (r, w2) \<and> r \<noteq> EPTMD_SUCCESS
      \<longrightarrow> DoJob c pages w = (r, snd (EndJob c w2)))"
  apply (intro conjI impI)
  subgoal by ((elim conjE)?, rule WriteData_loop_error; assumption)
  subgoal by ((elim conjE)?, rule WriteData_error; assumption)
  subgoal by ((elim conjE)?, rule WriteData_partial_then_error; assumption)
  subgoal by (rule WriteData_stops) simp
  subgoal by (rule FeedPaper_stops) simp
  subgoal by (rule WriteBand_stops) simp
  subgoal by (rule WriteRaster_stops) simp
  subgoal by (rule StartPage_stops) simp
  subgoal by (rule EndPage_stops) simp
  subgoal by (rule DoPage_stops[where buf' = "fst (snd (DoPage c h rows buf w))"]) simp
  subgoal by (rule StartJob_stops) simp
  subgoal by (rule DoJob_loop_stops) simp
  subgoal by ((elim conjE)?, rule FeedPaper_fails; assumption)
  subgoal by ((elim conjE)?, rule WriteBand_fails_header; assumption)
  subgoal by ((elim conjE)?, rule WriteBand_fails_payload; assumption)
  subgoal by ((elim conjE)?, rule WriteBand_fails_feed; assumption)
  subgoal by ((elim conjE)?, rule WriteBand_header_fails; assumption)
  subgoal by ((elim conjE)?, rule WriteRaster_loop_band_fails; assumption)
  subgoal by ((elim conjE)?, rule WriteRaster_returns_loop_result; assumption)
  subgoal by ((elim conjE)?, rule StartPage_fails; assumption)
  subgoal by ((elim conjE)?, rule StartJob_fails; assumption)
  subgoal by ((elim conjE)?, rule DoPage_WriteRaster_fails; assumption)
  subgoal by ((elim conjE)?, rule DoJob_loop_page_fails; assumption)
  subgoal by ((elim conjE)?, rule DoJob_StartJob_fails; assumption)
  subgoal by ((elim conjE)?, rule DoJob_page_fails; assumption)
  done

theorem write_failure_aborts_stage_witness:
  "(1 :: nat) < length [0x41, 0x42 :: byte]
   \<and> script (signal_world [0x41] [(False, WrError), (False, Wr 4096)] False)
       = (False, WrError) # [(False, Wr 4096)]
   \<and> WriteData_loop [0x41, 0x42] 1 (signal_world [0x41] [(False, WrError), (False, Wr 4096)] False)
       = (- 1, signal_world [0x41] [(False, Wr 4096)] False)
   \<and> WriteData (band_command (slip_header 16 48 2 203))
        (signal_world top_feed_out (drop 7 fail_script) False)
       = (EPTMD_SUCCESS,
          signal_world (top_feed_out @ band_command (slip_header 16 48 2 203)) (drop 8 fail_script) False)
   \<and> WriteData (band_payload (slip_header 16 48 2 203) five_band_page 8 8 0)
        (signal_world (top_feed_out @ band_command (slip_header 16 48 2 203)) (drop 8 fail_script) False)
       = (- 1, signal_world (top_feed_out @ band_command (slip_header 16 48 2 203)) (drop 9 fail_script) False)
   \<and> WriteBand (slip_config 203 TmPaperReductionOff) (slip_header 16 48 2 203) five_band_page 8 8
        (signal_world top_feed_out (drop 7 fail_script) False)
       = (- 1, signal_world (top_feed_out @ band_command (slip_header 16 48 2 203)) (drop 9 fail_script) False)
   \<and> StartJob (slip_config 203 TmPaperReductionOff) (signal_world [] fail_script False)
       = (EPTMD_SUCCESS, signal_world job_prologue (drop 5 fail_script) False)
   \<and> DoJob_loop (slip_config 203 TmPaperReductionOff) [(slip_header 16 48 2 203, five_band_rows)] None
        (signal_world job_prologue (drop 5 fail_script) False)
       = (3403, signal_world (top_feed_out @ band_command (slip_header 16 48 2 203)) (drop 9 fail_script) False)
   \<and> after_error (drop 5 fail_script) = Some (drop 9 fail_script)
   \<and> drop 9 fail_script = [(False, Wr 4096), (False, Wr 4096)]
   \<and> stops_at_error (drop 5 fail_script) 3403 (drop 9 fail_script)
   \<and> DoJob (slip_config 203 TmPaperReductionOff) [(slip_header 16 48 2 203, five_band_rows)]
        (signal_world [] fail_script False)
       = (3403, signal_world (top_feed_out @ band_command (slip_header 16 48 2 203)) (drop 9 fail_script) False)"
proof -
  let ?c = "slip_config 203 TmPaperReductionOff"
  let ?h = "slip_header 16 48 2 203"
  let ?wd = "signal_world top_feed_out (drop 7 fail_script) False"
  let ?we = "signal_world (top_feed_out @ band_command ?h) (drop 8 fail_script) False"
  let ?wf = "signal_world (top_feed_out @ band_command ?h) (drop 9 fail_script) False"
  let ?w0 = "signal_world [] fail_script False"
  let ?wa = "signal_world job_prologue (drop 5 fail_script) False"
  let ?ws = "signal_world [0x41] [(False, WrError), (False, Wr 4096)] False"
  have a: "(1 :: nat) < length [0x41, 0x42 :: byte]" by simp
  have b: "script ?ws = (False, WrError) # [(False, Wr 4096)]" by (simp add: signal_world_fields)
  have e: "?ws\<lparr>script := [(False, Wr 4096)], g_TmCanceled := (g_TmCanceled ?ws \<or> False)\<rparr>
      = signal_world [0x41] [(False, Wr 4096)] False"
    by (simp add: signal_world_def)
  note T1 = write_failure_aborts_stage[where p = "[0x41, 0x42]" and count = 1 and w = ?ws and sig = False
        and rest = "[(False, Wr 4096)]",
        THEN conjunct1]
  have "1 < length [0x41, 0x42 :: byte] \<and> script ?ws = (False, WrError) # [(False, Wr 4096)]
      \<longrightarrow> WriteData_loop [0x41, 0x42] 1 ?ws
            = (- 1, ?ws\<lparr>script := [(False, Wr 4096)], g_TmCanceled := (g_TmCanceled ?ws \<or> False)\<rparr>)"
    by (rule T1)
  then have c: "WriteData_loop [0x41, 0x42] 1 ?ws = (- 1, signal_world [0x41] [(False, Wr 4096)] False)"
    unfolding e using a b by simp
  have pay: "WriteData (band_payload ?h five_band_page 8 8 (uninit_i ?we)) ?we = (- 1, ?wf)"
    by (simp add: signal_world_fields fail_band_payload)
  note T2 = write_failure_aborts_stage[where c = ?c and h = ?h and buf = five_band_page and off = 8
      and lines = 8 and w = ?wd and ?w1.0 = ?we and ?w2.0 = ?wf and r = "- 1",
        THEN conjunct2, THEN conjunct2, THEN conjunct2, THEN conjunct2, THEN conjunct2,
        THEN conjunct2, THEN conjunct2, THEN conjunct2, THEN conjunct2, THEN conjunct2,
        THEN conjunct2, THEN conjunct2, THEN conjunct2, THEN conjunct2, THEN conjunct1]
  have "WriteData (band_command ?h) ?wd = (EPTMD_SUCCESS, ?we)
        \<and> WriteData (band_payload ?h five_band_page 8 8 (uninit_i ?we)) ?we = (- 1, ?wf)
        \<and> - 1 \<noteq> EPTMD_SUCCESS
      \<longrightarrow> WriteBand ?c ?h five_band_page 8 8 ?wd = (- 1, ?wf)"
    by (rule T2)
  then have d: "WriteBand ?c ?h five_band_page 8 8 ?wd = (- 1, ?wf)"
    using fail_band_header pay by simp
  note T3 = write_failure_aborts_stage[where c = ?c and pages = "[(?h, five_band_rows)]" and w = ?w0
      and ?w1.0 = ?wa and ?w2.0 = ?wf and r = 3403,
        THEN conjunct2, THEN conjunct2, THEN conjunct2, THEN conjunct2, THEN conjunct2,
        THEN conjunct2, THEN conjunct2, THEN conjunct2, THEN conjunct2, THEN conjunct2,
        THEN conjunct2, THEN conjunct2, THEN conjunct2, THEN conjunct2, THEN conjunct2,
        THEN conjunct2, THEN conjunct2, THEN conjunct2, THEN conjunct2, THEN conjunct2,
        THEN conjunct2, THEN conjunct2, THEN conjunct2, THEN conjunct2]
  have "StartJob ?c ?w0 = (EPTMD_SUCCESS, ?wa) \<and> DoJob_loop ?c [(?h, five_band_rows)] None ?wa = (3403, ?wf)
        \<and> 3403 \<noteq> EPTMD_SUCCESS
      \<longrightarrow> DoJob ?c [(?h, five_band_rows)] ?w0 = (3403, snd (EndJob ?c ?wf))"
    by (rule T3)
  then have j: "DoJob ?c [(?h, five_band_rows)] ?w0 = (3403, ?wf)"
    using fail_StartJob fail_DoJob_loop by (simp add: signal_EndJob)
  have ae: "after_error (drop 5 fail_script) = Some (drop 9 fail_script)"
    and dr: "drop 9 fail_script = [(False, Wr 4096), (False, Wr 4096)]"
    by (simp_all add: fail_script_def)
  note T4 = write_failure_aborts_stage[where c = ?c and pages = "[(?h, five_band_rows)]" and pb = None
      and w = ?wa,
        THEN conjunct2, THEN conjunct2, THEN conjunct2, THEN conjunct2, THEN conjunct2,
        THEN conjunct2, THEN conjunct2, THEN conjunct2, THEN conjunct2, THEN conjunct2,
        THEN conjunct2, THEN conjunct1]
  have "stops_at_error (script ?wa) (fst (DoJob_loop ?c [(?h, five_band_rows)] None ?wa))
          (script (snd (DoJob_loop ?c [(?h, five_band_rows)] None ?wa)))"
    by (rule T4)
  then have st: "stops_at_error (drop 5 fail_script) 3403 (drop 9 fail_script)"
    unfolding fail_DoJob_loop by (simp add: signal_world_fields)
  show ?thesis
    by (intro conjI a b c fail_band_header fail_band_payload d fail_StartJob fail_DoJob_loop ae dr st j)
qed

text \<open>
  C9, as stated, fails: the first \<open>write\<close> of the job fails with an error other than
  \<open>EINTR\<close>, \<open>StartJob\<close> returns 2101, and the byte of \<open>EndJob.prn\<close> is emitted afterwards.
\<close>

theorem write_failure_then_EndJob_counterexample:
  "script failing_world = [(False, WrError)] \<and> out failing_world = []
   \<and> DoJob (slip_config 203 TmPaperReductionOff) [] failing_world
       = (2101, failing_world\<lparr>script := [], out := [0x41]\<rparr>)"
  using DoJob_StartJob_fails[OF failing_StartJob, of "[]"]
  by (simp add: failing_EndJob) (simp add: failing_world_def)

section \<open>Cancellation (C7)\<close>
























end
